theory Spec2Isabelle
  imports Complex_Main "HOL-Library.Multiset" "HOL-Library.Sublist"
begin

section \<open>Data model (apps/api/src/index.ts)\<close>

text \<open>
  The string-literal unions \<^verbatim>\<open>Severity\<close>, \<^verbatim>\<open>Category\<close> and \<^verbatim>\<open>FlowSource\<close> are closed
  datatypes. The interfaces \<^verbatim>\<open>Step\<close>, \<^verbatim>\<open>Flow\<close> and \<^verbatim>\<open>Finding\<close> are records. Two fields of
  \<^verbatim>\<open>Finding\<close> are left out: \<^verbatim>\<open>id\<close>, which every producer fills with a fresh
  \<^verbatim>\<open>crypto.randomUUID()\<close> and no function reads, and \<^verbatim>\<open>patternId\<close>, which no producer sets.
  A JavaScript number is a value of the type \<open>Number\<close>: \<open>Num r\<close> for a finite number, the two
  infinities, or \<open>NaN\<close>. A decimal literal of the source (\<^verbatim>\<open>0.9\<close>) is \<open>Num\<close> of the real
  number it denotes.
\<close>

datatype Number = Num real | PosInfinity | NegInfinity | NaN

datatype Severity = HIGH | MEDIUM | LOW

datatype Category = TRUST | CONTROL | TRANSPARENCY | RECOVERY | MEMORY

datatype FlowSource = manual | url | upload

record Step =
  step_id :: string
  step_text :: string

record Flow =
  flow_id :: string
  goal :: string
  steps :: "Step list"
  createdAt :: string
  updatedAt :: string
  source :: "FlowSource option"
  sourceUrl :: "string option"

record Finding =
  severity :: Severity
  category :: Category
  title :: string
  description :: string
  evidence :: "string list"
  recommendation :: string
  confidence :: Number
  principleId :: "string option"

section \<open>Utility functions\<close>

text \<open>
  \<^verbatim>\<open>String.prototype.includes\<close>: the term occurs as a contiguous run of characters.
  \<^verbatim>\<open>String.prototype.toLowerCase\<close> is modelled on ASCII text: the letters A to Z are
  mapped to a to z and every other character is kept.
\<close>

fun str_includes :: "string \<Rightarrow> string \<Rightarrow> bool" where
  "str_includes [] t = (t = [])"
| "str_includes (c # cs) t = (prefix t (c # cs) \<or> str_includes cs t)"

definition lowerChar :: "char \<Rightarrow> char" where
  "lowerChar c =
     (case map_of (zip ''ABCDEFGHIJKLMNOPQRSTUVWXYZ'' ''abcdefghijklmnopqrstuvwxyz'') c of
        Some l \<Rightarrow> l
      | None \<Rightarrow> c)"

definition toLowerCase :: "string \<Rightarrow> string" where
  "toLowerCase s = map lowerChar s"

definition includesAny :: "string \<Rightarrow> string list \<Rightarrow> bool" where
  "includesAny txt terms = (let normalized = toLowerCase txt in list_ex (\<lambda>t. str_includes normalized t) terms)"

definition calculateOverallRisk :: "Finding list \<Rightarrow> Severity" where
  "calculateOverallRisk findings =
     (if list_ex (\<lambda>f. severity f = HIGH) findings then HIGH
      else if list_ex (\<lambda>f. severity f = MEDIUM) findings then MEDIUM
      else LOW)"

definition extractHighlights :: "Finding list \<Rightarrow> string list" where
  "extractHighlights findings = map title (take 3 findings)"

text \<open>
  \<^verbatim>\<open>sortBySeverity\<close> copies the array and sorts it with the comparator
  \<^verbatim>\<open>order[a.severity] - order[b.severity]\<close>. \<^verbatim>\<open>Array.prototype.sort\<close> is a stable sort
  (ECMAScript 2019), so the built-in is modelled by the stable insertion sort \<^const>\<open>sort_key\<close>
  on the key \<^verbatim>\<open>order\<close>.
\<close>

fun order :: "Severity \<Rightarrow> nat" where
  "order HIGH = 0"
| "order MEDIUM = 1"
| "order LOW = 2"

definition sortBySeverity :: "Finding list \<Rightarrow> Finding list" where
  "sortBySeverity findings = sort_key (\<lambda>f. order (severity f)) findings"

section \<open>Rule evaluator\<close>

text \<open>The nine keyword lists of \<^verbatim>\<open>runRules\<close>, in the order in which the function tests them.\<close>

definition failureTerms :: "string list" where
  "failureTerms = [''error'', ''fail'', ''retry'', ''fallback'', ''recover'', ''undo'']"

definition approvalTerms :: "string list" where
  "approvalTerms =
     [''approve'', ''confirm'', ''review'', ''check'', ''verify'', ''preview'', ''user approves'']"

definition autoActTerms :: "string list" where
  "autoActTerms =
     [''automatically'', ''auto'', ''ai executes'', ''ai performs'', ''ai does'', ''system sends'',
      ''publish'']"

definition explainTerms :: "string list" where
  "explainTerms =
     [''why'', ''because'', ''reason'', ''explains'', ''explanation'', ''shows rationale'']"

definition progressTerms :: "string list" where
  "progressTerms = [''loading'', ''progress'', ''processing'', ''working'', ''status'', ''indicator'']"

definition memoryTerms :: "string list" where
  "memoryTerms = [''remember'', ''recall'', ''previous'', ''history'', ''context'', ''saved'']"

definition undoTerms :: "string list" where
  "undoTerms = [''undo'', ''edit'', ''modify'', ''change'', ''revert'', ''cancel'']"

definition trustTerms :: "string list" where
  "trustTerms = [''verified'', ''secure'', ''trust'', ''credential'', ''badge'', ''certification'']"

definition confidenceTerms :: "string list" where
  "confidenceTerms =
     [''confidence'', ''certainty'', ''sure'', ''might'', ''may'', ''uncertain'', ''probability'']"

definition someStep :: "Flow \<Rightarrow> string list \<Rightarrow> bool" where
  "someStep flow terms = list_ex (\<lambda>s. includesAny (step_text s) terms) (steps flow)"

text \<open>The eight findings that the checks push, with their literal texts.\<close>

definition finding1 :: Finding where
  "finding1 = \<lparr>
     severity = HIGH,
     category = RECOVERY,
     title = ''No error handling or recovery path defined'',
     description = ''Your flow doesn't plan for failure. When AI makes mistakes or systems break, users get stuck with no way forward. This creates anxiety, support tickets, and abandoned flows. Every AI feature needs graceful degradation.'',
     evidence = [''No error states mentioned'', ''No retry or fallback options'',
       ''No recovery path if AI fails''],
     recommendation = ''Add error handling at each AI step:\<newline>\<newline>1. Show clear error messages\<newline>2. Offer retry with 'Try again' button\<newline>3. Provide manual alternative\<newline>4. Preserve user input during failures\<newline>5. Explain what went wrong and why'',
     confidence = Num 0.9,
     principleId = Some ''principle_graceful_failure'' \<rparr>"

definition finding2 :: Finding where
  "finding2 = \<lparr>
     severity = HIGH,
     category = CONTROL,
     title = ''AI takes actions without user approval'',
     description = ''Your flow lets AI make decisions and take actions without asking permission. This feels like loss of control and breaks trust.'',
     evidence = [''AI executes actions automatically'', ''No approval or confirmation step'',
       ''User cannot review before action''],
     recommendation = ''Add approval gates before AI actions:\<newline>\<newline>1. Preview what will happen\<newline>2. Show 'Approve' and 'Cancel' buttons\<newline>3. Allow editing before execution\<newline>4. Make approval explicit, not assumed'',
     confidence = Num 0.95,
     principleId = Some ''principle_human_in_loop'' \<rparr>"

definition finding3 :: Finding where
  "finding3 = \<lparr>
     severity = MEDIUM,
     category = TRANSPARENCY,
     title = ''AI decisions lack transparency'',
     description = ''Your flow doesn't explain WHY the AI makes decisions. Users can't trust what they don't understand.'',
     evidence = [''No explanations of AI reasoning'', ''Missing 'what happens next' information'',
       ''Users left guessing why actions were taken''],
     recommendation = ''Add transparency:\<newline>\<newline>1. Explain WHY: 'I suggested this because...'\<newline>2. Show confidence: '85% confident'\<newline>3. Admit limitations: 'I'm not sure about X'\<newline>4. Show reasoning factors'',
     confidence = Num 0.85,
     principleId = Some ''principle_explainability'' \<rparr>"

definition finding4 :: Finding where
  "finding4 = \<lparr>
     severity = MEDIUM,
     category = TRANSPARENCY,
     title = ''Missing real-time feedback on system status'',
     description = ''Multi-step process without showing users what's happening. Silence creates anxiety.'',
     evidence = [''No loading or progress indicators'', ''No intermediate feedback'',
       ''Users don't know if system is working''],
     recommendation = ''Add progressive feedback:\<newline>\<newline>1. Show spinners or progress bars\<newline>2. Status messages: 'Analyzing data...'\<newline>3. Time estimates: 'Usually takes 30 seconds'\<newline>4. Step indicators: 'Step 2 of 5'' @ [CHR 0x27],
     confidence = Num 0.8,
     principleId = Some ''principle_feedback_visibility'' \<rparr>"

definition finding5 :: Finding where
  "finding5 = \<lparr>
     severity = MEDIUM,
     category = MEMORY,
     title = ''System doesn't remember user context'',
     description = ''Making users repeat information they've already provided signals the system isn't listening.'',
     evidence = [''No mention of remembering context'', ''No reference to previous interactions'',
       ''Likely repeats questions''],
     recommendation = ''Add contextual memory:\<newline>\<newline>1. Remember user preferences\<newline>2. Reference previous inputs\<newline>3. Auto-fill based on history\<newline>4. Show 'We remember from last time'' @ [CHR 0x27],
     confidence = Num 0.75,
     principleId = Some ''principle_context_awareness'' \<rparr>"

definition finding6 :: Finding where
  "finding6 = \<lparr>
     severity = MEDIUM,
     category = CONTROL,
     title = ''No way to undo or edit AI actions'',
     description = ''Irreversible AI actions create fear. Users need escape hatches.'',
     evidence = [''No undo or edit capability'', ''AI actions appear permanent'',
       ''No way to fix AI mistakes''],
     recommendation = ''Add reversibility:\<newline>\<newline>1. Undo button after AI actions\<newline>2. Edit capability before finalizing\<newline>3. Version history\<newline>4. 'Undo' window (e.g., 30 seconds)'',
     confidence = Num 0.85,
     principleId = Some ''principle_undo_redo'' \<rparr>"

definition finding7 :: Finding where
  "finding7 = \<lparr>
     severity = LOW,
     category = TRUST,
     title = ''Missing trust and credibility signals'',
     description = ''No signals to help users trust AI decisions. Trust must be earned.'',
     evidence = [''No verification or credibility indicators'', ''No trust-building elements'',
       ''Missing security or authority signals''],
     recommendation = ''Add trust signals:\<newline>\<newline>1. Verification badges\<newline>2. Data source transparency\<newline>3. Security indicators\<newline>4. Expert endorsements\<newline>5. Success metrics'',
     confidence = Num 0.7,
     principleId = Some ''principle_consent_clarity'' \<rparr>"

definition finding8 :: Finding where
  "finding8 = \<lparr>
     severity = LOW,
     category = TRUST,
     title = ''AI doesn't communicate confidence levels'',
     description = ''All recommendations presented with same certainty, whether 95% sure or guessing.'',
     evidence = [''No confidence scores shown'', ''Missing uncertainty indicators'',
       ''Doesn't flag low-confidence outputs''],
     recommendation = ''Add trust calibration:\<newline>\<newline>1. Confidence scores: '92% confident'\<newline>2. Uncertainty flags: 'Not sure about this'\<newline>3. Verification prompts\<newline>4. Source transparency'',
     confidence = Num 0.8,
     principleId = Some ''principle_trust_calibration'' \<rparr>"

text \<open>
  \<^verbatim>\<open>runRules\<close> appends to one array, check after check; each \<^verbatim>\<open>if (...) findings.push(...)\<close>
  is a possibly empty segment of the result.
\<close>

definition runRules :: "Flow \<Rightarrow> Finding list" where
  "runRules flow =
     (let hasFailure = someStep flow failureTerms;
          hasApproval = someStep flow approvalTerms;
          hasAutoAct = someStep flow autoActTerms;
          hasExplain = someStep flow explainTerms;
          hasProgress = someStep flow progressTerms;
          hasMemory = someStep flow memoryTerms;
          hasUndo = someStep flow undoTerms;
          hasTrust = someStep flow trustTerms;
          hasConfidence = someStep flow confidenceTerms
      in (if \<not> hasFailure then [finding1] else [])
       @ (if \<not> hasApproval \<and> hasAutoAct then [finding2] else [])
       @ (if \<not> hasExplain then [finding3] else [])
       @ (if \<not> hasProgress \<and> length (steps flow) > 3 then [finding4] else [])
       @ (if \<not> hasMemory \<and> length (steps flow) > 2 then [finding5] else [])
       @ (if \<not> hasUndo \<and> hasAutoAct then [finding6] else [])
       @ (if \<not> hasTrust \<and> hasAutoAct then [finding7] else [])
       @ (if \<not> hasConfidence \<and> hasAutoAct then [finding8] else []))"

section \<open>AI analysis\<close>

text \<open>
  \<^verbatim>\<open>runAIAnalysis\<close> talks to an external service and leans on built-ins of the JavaScript
  engine. They are the fields of an environment record, so that every theorem below holds for
  any service and any engine:
  \<^item> \<^verbatim>\<open>AI_ENABLED\<close>: whether an API key is configured;
  \<^item> \<^verbatim>\<open>createCompletion\<close>: \<^verbatim>\<open>await openai.chat.completions.create(...)\<close> followed by
    \<^verbatim>\<open>completion.choices[0]?.message?.content\<close>, as a function of the user message (model,
    temperature and system prompt are constants of the call). The call either rejects (network
    error, timeout, API error) or yields the content, \<open>None\<close> when there is no choice, no message
    or no content;
  \<^item> \<^verbatim>\<open>trim\<close>, and the two regular-expression replacements of \<^verbatim>\<open>cleanJSONResponse\<close>;
  \<^item> \<^verbatim>\<open>JSON_parse\<close>: \<open>None\<close> when \<^verbatim>\<open>JSON.parse\<close> throws a SyntaxError.

  The parsed reply is read at the schema that the system prompt asks for, except for the
  confidence: a field of a finding other than \<^verbatim>\<open>confidence\<close> is either absent (\<open>None\<close>;
  \<^verbatim>\<open>null\<close> counts as absent) or holds a value of the field's declared type, and replies that
  put another kind of value there (a severity outside the three levels) are outside the model.
  The confidence is any JSON value, or absent: the callback takes \<^verbatim>\<open>f: any\<close> and passes
  whatever it finds to \<^verbatim>\<open>Math.max\<close>, which converts it to a number. The conversion of a
  string and of an array to a number are two more built-ins of the engine, and fields of the
  environment: \<^verbatim>\<open>stringToNumber\<close>, and \<^verbatim>\<open>arrayToNumber\<close>, which can throw a TypeError.
\<close>

datatype error = CallError | SyntaxError | TypeError

datatype Completion = Rejects | Resolves "string option"

datatype Json =
    JNull
  | JBool bool
  | JNum Number
  | JStr string
  | JArr "Json list"
  | JObj "(string \<times> Json) list"

record RawFinding =
  raw_severity :: "Severity option"
  raw_category :: "Category option"
  raw_title :: "string option"
  raw_description :: "string option"
  raw_evidence :: "string list option"
  raw_recommendation :: "string option"
  raw_confidence :: "Json option"
  raw_principleId :: "string option"

text \<open>
  What \<^verbatim>\<open>JSON.parse\<close> returned, as far as \<^verbatim>\<open>runAIAnalysis\<close> looks at it:
  \<^item> \<open>ParsedNull\<close>: the value \<^verbatim>\<open>null\<close>, whose property \<^verbatim>\<open>findings\<close> cannot be read;
  \<^item> \<open>NoFindings\<close>: any other value whose \<^verbatim>\<open>findings\<close> is absent or falsy;
  \<^item> \<open>FindingsNotArray\<close>: \<^verbatim>\<open>findings\<close> is truthy and has no \<^verbatim>\<open>map\<close> method;
  \<^item> \<open>FindingsArray\<close>: \<^verbatim>\<open>findings\<close> is an array; an element is \<open>None\<close> when it is \<^verbatim>\<open>null\<close>,
    whose properties cannot be read.
\<close>

datatype Parsed =
    ParsedNull
  | NoFindings
  | FindingsNotArray
  | FindingsArray "RawFinding option list"

record Env =
  AI_ENABLED :: bool
  createCompletion :: "string \<Rightarrow> Completion"
  trim :: "string \<Rightarrow> string"
  stripOpeningFence :: "string \<Rightarrow> string"
  stripClosingFence :: "string \<Rightarrow> string"
  JSON_parse :: "string \<Rightarrow> Parsed option"
  stringToNumber :: "string \<Rightarrow> Number"
  arrayToNumber :: "Json list \<Rightarrow> error + Number"

definition digitChar :: "nat \<Rightarrow> char" where
  "digitChar d = ''0123456789'' ! d"

fun natToString :: "nat \<Rightarrow> string" where
  "natToString n =
     (if n < 10 then [digitChar n] else natToString (n div 10) @ [digitChar (n mod 10)])"

declare natToString.simps [simp del]

fun join :: "string \<Rightarrow> string list \<Rightarrow> string" where
  "join sep [] = []"
| "join sep [x] = x"
| "join sep (x # y # ys) = x @ sep @ join sep (y # ys)"

definition formatFlowForAI :: "Flow \<Rightarrow> string" where
  "formatFlowForAI flow =
     ''Goal: '' @ goal flow @ ''\<newline>\<newline>Steps:\<newline>''
     @ join ''\<newline>''
         (map (\<lambda>(i, s). natToString (i + 1) @ ''. '' @ step_text s) (enumerate 0 (steps flow)))"

definition userMessage :: "Flow \<Rightarrow> string" where
  "userMessage flow =
     ''Analyze this AI product flow:\<newline>\<newline>'' @ formatFlowForAI flow
     @ ''\<newline>\<newline>Identify UX issues missed by basic checks. Focus on nuanced problems like unclear language, missing context, poor flow logic, or trust issues.''"

definition cleanJSONResponse :: "Env \<Rightarrow> string \<Rightarrow> string" where
  "cleanJSONResponse env txt =
     (let cleaned = trim env txt
      in if prefix ''```'' cleaned
         then stripClosingFence env (stripOpeningFence env cleaned)
         else cleaned)"

text \<open>
  The operator \<^verbatim>\<open>||\<close> yields its right operand when the left one is falsy. An absent field
  is falsy, and so is the empty string.
\<close>

definition orString :: "string option \<Rightarrow> string \<Rightarrow> string" where
  "orString v d = (case v of None \<Rightarrow> d | Some s \<Rightarrow> if s = [] then d else s)"

definition orValue :: "'a option \<Rightarrow> 'a \<Rightarrow> 'a" where
  "orValue v d = (case v of None \<Rightarrow> d | Some x \<Rightarrow> x)"

text \<open>
  The falsy JSON values are \<^verbatim>\<open>null\<close>, \<^verbatim>\<open>false\<close>, zero, \<open>NaN\<close> and the empty string; every
  array and every object is truthy.
\<close>

fun truthy :: "Json option \<Rightarrow> bool" where
  "truthy None = False"
| "truthy (Some JNull) = False"
| "truthy (Some (JBool b)) = b"
| "truthy (Some (JNum (Num x))) = (x \<noteq> 0)"
| "truthy (Some (JNum NaN)) = False"
| "truthy (Some (JNum n)) = True"
| "truthy (Some (JStr s)) = (s \<noteq> [])"
| "truthy (Some (JArr xs)) = True"
| "truthy (Some (JObj kvs)) = True"

text \<open>
  The conversion to a number that \<^verbatim>\<open>Math.max\<close> applies to its arguments. An object that
  \<^verbatim>\<open>JSON.parse\<close> made is first converted to a string by its \<^verbatim>\<open>toString\<close> method: the
  inherited one gives \<^verbatim>\<open>"[object Object]"\<close>, which is not a number; an own property
  \<^verbatim>\<open>toString\<close> hides it with a value that cannot be called, and the conversion throws.
\<close>

definition toNumber :: "Env \<Rightarrow> Json \<Rightarrow> error + Number" where
  "toNumber env v =
     (case v of
        JNull \<Rightarrow> Inr (Num 0)
      | JBool b \<Rightarrow> Inr (Num (if b then 1 else 0))
      | JNum n \<Rightarrow> Inr n
      | JStr s \<Rightarrow> Inr (stringToNumber env s)
      | JArr xs \<Rightarrow> arrayToNumber env xs
      | JObj kvs \<Rightarrow> if ''toString'' \<in> fst ` set kvs then Inl TypeError else Inr NaN)"

text \<open>\<^verbatim>\<open>Math.max\<close> and \<^verbatim>\<open>Math.min\<close> of two numbers: \<open>NaN\<close> as soon as one of them is.\<close>

fun mathMax :: "Number \<Rightarrow> Number \<Rightarrow> Number" where
  "mathMax NaN y = NaN"
| "mathMax x NaN = NaN"
| "mathMax PosInfinity y = PosInfinity"
| "mathMax x PosInfinity = PosInfinity"
| "mathMax NegInfinity y = y"
| "mathMax x NegInfinity = x"
| "mathMax (Num a) (Num b) = Num (max a b)"

fun mathMin :: "Number \<Rightarrow> Number \<Rightarrow> Number" where
  "mathMin NaN y = NaN"
| "mathMin x NaN = NaN"
| "mathMin NegInfinity y = NegInfinity"
| "mathMin x NegInfinity = NegInfinity"
| "mathMin PosInfinity y = y"
| "mathMin x PosInfinity = x"
| "mathMin (Num a) (Num b) = Num (min a b)"

text \<open>The expression \<^verbatim>\<open>Math.min(Math.max(f.confidence || 0.7, 0), 1)\<close>.\<close>

definition clampConfidence :: "Env \<Rightarrow> Json option \<Rightarrow> error + Number" where
  "clampConfidence env c =
     (let v = (case c of
                 None \<Rightarrow> JNum (Num 0.7)
               | Some given \<Rightarrow> if truthy c then given else JNum (Num 0.7))
      in case toNumber env v of
           Inl e \<Rightarrow> Inl e
         | Inr n \<Rightarrow> Inr (mathMin (mathMax n (Num 0)) (Num 1)))"

text \<open>
  The callback of \<^verbatim>\<open>(parsed.findings || []).map(...)\<close>. It throws when the conversion of the
  confidence does.
\<close>

definition normalizeFinding :: "Env \<Rightarrow> RawFinding \<Rightarrow> error + Finding" where
  "normalizeFinding env f =
     (case clampConfidence env (raw_confidence f) of
        Inl e \<Rightarrow> Inl e
      | Inr c \<Rightarrow>
          Inr \<lparr>
            severity = orValue (raw_severity f) MEDIUM,
            category = orValue (raw_category f) TRANSPARENCY,
            title = orString (raw_title f) ''AI-detected issue'',
            description = orString (raw_description f) ''No description provided'',
            evidence = (case raw_evidence f of Some ev \<Rightarrow> ev | None \<Rightarrow> []),
            recommendation = orString (raw_recommendation f) ''Review and improve this aspect'',
            confidence = c,
            principleId = raw_principleId f \<rparr>)"

text \<open>\<^verbatim>\<open>Array.prototype.map\<close> calls the callback from left to right; the first throw ends it.\<close>

fun mapFindings :: "Env \<Rightarrow> RawFinding option list \<Rightarrow> error + Finding list" where
  "mapFindings env [] = Inr []"
| "mapFindings env (None # fs) = Inl TypeError"
| "mapFindings env (Some f # fs) =
     (case normalizeFinding env f of
        Inl e \<Rightarrow> Inl e
      | Inr g \<Rightarrow> (case mapFindings env fs of Inl e \<Rightarrow> Inl e | Inr rest \<Rightarrow> Inr (g # rest)))"

text \<open>The body of the \<^verbatim>\<open>try\<close> block: every exception is a value \<open>Inl\<close>.\<close>

definition runAIAnalysisBody :: "Env \<Rightarrow> Flow \<Rightarrow> error + Finding list" where
  "runAIAnalysisBody env flow =
     (case createCompletion env (userMessage flow) of
        Rejects \<Rightarrow> Inl CallError
      | Resolves content \<Rightarrow>
          (let responseText = orString content ''{}'';
               jsonText = cleanJSONResponse env responseText
           in case JSON_parse env jsonText of
                None \<Rightarrow> Inl SyntaxError
              | Some ParsedNull \<Rightarrow> Inl TypeError
              | Some NoFindings \<Rightarrow> Inr []
              | Some FindingsNotArray \<Rightarrow> Inl TypeError
              | Some (FindingsArray fs) \<Rightarrow> mapFindings env fs))"

definition runAIAnalysis :: "Env \<Rightarrow> Flow \<Rightarrow> Finding list" where
  "runAIAnalysis env flow =
     (if \<not> AI_ENABLED env then []
      else case runAIAnalysisBody env flow of
             Inl e \<Rightarrow> []
           | Inr fs \<Rightarrow> fs)"

section \<open>Hybrid analysis\<close>

definition runHybridAnalysis :: "Env \<Rightarrow> Flow \<Rightarrow> bool \<Rightarrow> Finding list" where
  "runHybridAnalysis env flow useAI =
     (let ruleFindings = runRules flow
      in if \<not> useAI \<or> \<not> AI_ENABLED env then sortBySeverity ruleFindings
         else
           (let aiFindings = runAIAnalysis env flow;
                aiCategories = set (map category aiFindings);
                filteredRuleFindings = filter (\<lambda>rf. category rf \<notin> aiCategories) ruleFindings;
                combined = aiFindings @ filteredRuleFindings
            in sortBySeverity combined))"

text \<open>
  The part of \<^verbatim>\<open>performFlowAnalysis\<close> that computes the analysis result: the findings and the
  summary (overall risk and highlights).
\<close>

record AnalysisResult =
  findings :: "Finding list"
  overallRisk :: Severity
  highlights :: "string list"
  aiEnhanced :: bool

definition performFlowAnalysis :: "Env \<Rightarrow> Flow \<Rightarrow> bool \<Rightarrow> AnalysisResult" where
  "performFlowAnalysis env flow useAI =
     (let fs = runHybridAnalysis env flow useAI
      in \<lparr> findings = fs,
           overallRisk = calculateOverallRisk fs,
           highlights = extractHighlights fs,
           aiEnhanced = (useAI \<and> AI_ENABLED env) \<rparr>)"

section \<open>Rate limiting and cost tracking (apps/api/src/middleware/security.ts)\<close>

text \<open>
  \<^verbatim>\<open>RateLimitEntry\<close> and \<^verbatim>\<open>CostEntry\<close> are two interfaces of one shape, a count and a reset
  time. Times are the integer milliseconds of \<^verbatim>\<open>Date.now()\<close>; counts are natural numbers.
  The two stores are \<^verbatim>\<open>Map\<close>s from a key to an entry. An entry is an object that the map
  refers to, so \<^verbatim>\<open>entry.count++\<close> is an update of the map at the entry's key.

  A middleware either calls \<^verbatim>\<open>next()\<close> or answers with status 429; the answer carries the
  \<^verbatim>\<open>error\<close> text and, for the two rate limiters, \<^verbatim>\<open>retryAfter\<close> (the human-readable
  \<^verbatim>\<open>message\<close> is left out). The client identifier is what \<^verbatim>\<open>getClientId(req)\<close> returns
  and the time is what \<^verbatim>\<open>Date.now()\<close> returns; both are inputs.
\<close>

record RateLimitEntry =
  count :: nat
  resetTime :: int

type_synonym CostEntry = RateLimitEntry

type_synonym Store = "string \<rightharpoonup> RateLimitEntry"

datatype Response = Next | Status429 string "int option"

definition RATE_LIMIT_WINDOW :: int where
  "RATE_LIMIT_WINDOW = 60 * 1000"

definition MAX_REQUESTS_PER_MINUTE :: nat where
  "MAX_REQUESTS_PER_MINUTE = 10"

definition MAX_AI_REQUESTS_PER_HOUR :: nat where
  "MAX_AI_REQUESTS_PER_HOUR = 20"

definition AI_LIMIT_WINDOW :: int where
  "AI_LIMIT_WINDOW = 60 * 60 * 1000"

definition DAILY_AI_LIMIT :: nat where
  "DAILY_AI_LIMIT = 100"

definition DAILY_WINDOW :: int where
  "DAILY_WINDOW = 24 * 60 * 60 * 1000"

text \<open>\<^verbatim>\<open>Math.ceil(ms / 1000)\<close> on an integer number of milliseconds.\<close>

definition ceilSeconds :: "int \<Rightarrow> int" where
  "ceilSeconds ms = - ((- ms) div 1000)"

text \<open>The clean-up timer (every five minutes) deletes the entries whose reset time has passed.\<close>

definition cleanup :: "int \<Rightarrow> Store \<Rightarrow> Store" where
  "cleanup now store =
     (\<lambda>key. case store key of
               None \<Rightarrow> None
             | Some entry \<Rightarrow> if resetTime entry < now then None else Some entry)"

definition rateLimiter :: "nat \<Rightarrow> string \<Rightarrow> int \<Rightarrow> Store \<Rightarrow> Response \<times> Store" where
  "rateLimiter maxRequests clientId now store =
     (let key = clientId @ '':general'';
          newWindow = (Next, store(key \<mapsto> \<lparr> count = 1, resetTime = now + RATE_LIMIT_WINDOW \<rparr>))
      in case store key of
           None \<Rightarrow> newWindow
         | Some entry \<Rightarrow>
             if resetTime entry < now then newWindow
             else if count entry \<ge> maxRequests
             then (Status429 ''Too many requests'' (Some (ceilSeconds (resetTime entry - now))),
                   store)
             else (Next, store(key \<mapsto> entry\<lparr> count := count entry + 1 \<rparr>)))"

definition aiRateLimiter :: "string \<Rightarrow> int \<Rightarrow> Store \<Rightarrow> Response \<times> Store" where
  "aiRateLimiter clientId now store =
     (let key = clientId @ '':ai'';
          newWindow = (Next, store(key \<mapsto> \<lparr> count = 1, resetTime = now + AI_LIMIT_WINDOW \<rparr>))
      in case store key of
           None \<Rightarrow> newWindow
         | Some entry \<Rightarrow>
             if resetTime entry < now then newWindow
             else if count entry \<ge> MAX_AI_REQUESTS_PER_HOUR
             then (Status429 ''AI rate limit exceeded''
                     (Some (ceilSeconds (resetTime entry - now))),
                   store)
             else (Next, store(key \<mapsto> entry\<lparr> count := count entry + 1 \<rparr>)))"

text \<open>
  \<^verbatim>\<open>trackCost\<close> also writes to the console. A line is kept with its level and the count it
  prints: \<open>Usage n\<close> is \<^verbatim>\<open>console.log("[COST] Daily AI usage: n/100")\<close>, \<open>CostWarning n\<close> is
  \<^verbatim>\<open>console.warn("[COST WARNING] 80% of daily AI limit used: n/100")\<close> and \<open>CostAlert n\<close> is
  \<^verbatim>\<open>console.error("[COST ALERT] Daily AI limit reached: n/100")\<close>.
\<close>

datatype CostLine = Usage nat | CostWarning nat | CostAlert nat

definition costKey :: string where
  "costKey = ''global:ai:daily''"

definition trackCost :: "int \<Rightarrow> Store \<Rightarrow> (Response \<times> CostLine list) \<times> Store" where
  "trackCost now costTracker =
     (let key = costKey;
          newWindow = ((Next, [Usage 1]),
                       costTracker(key \<mapsto> \<lparr> count = 1, resetTime = now + DAILY_WINDOW \<rparr>))
      in case costTracker key of
           None \<Rightarrow> newWindow
         | Some old \<Rightarrow>
             if resetTime old < now then newWindow
             else
               (let entry = old\<lparr> count := count old + 1 \<rparr>;
                    tracker = costTracker(key \<mapsto> entry)
                in if count entry \<ge> DAILY_AI_LIMIT
                   then ((Status429 ''Daily AI limit reached'' None, [CostAlert (count entry)]),
                         tracker)
                   else if real (count entry) \<ge> real DAILY_AI_LIMIT * 0.8
                   then ((Next, [CostWarning (count entry), Usage (count entry)]), tracker)
                   else ((Next, [Usage (count entry)]), tracker)))"

text \<open>A run of \<^verbatim>\<open>trackCost\<close> over the AI requests that arrive at the given times.\<close>

fun trackCostAll :: "int list \<Rightarrow> Store \<Rightarrow> (Response \<times> CostLine list) list \<times> Store" where
  "trackCostAll [] costTracker = ([], costTracker)"
| "trackCostAll (now # later) costTracker =
     (let (r, tracker) = trackCost now costTracker;
          (rs, final) = trackCostAll later tracker
      in (r # rs, final))"

subsection \<open>The fixed-window machine\<close>

text \<open>
  The state of one counter is an optional entry: \<open>None\<close> is Absent and
  \<open>Some \<lparr>count = c, resetTime = r\<rparr>\<close> is Active(c, r). \<open>fixedWindowSpec\<close> is the transition
  rule as the specification words it (a window is over when \<open>resetAt \<le> t\<close>);
  \<open>fixedWindow\<close> is the same rule with a window over when \<open>resetAt < t\<close>.
\<close>

datatype Decision = Allow | Deny int

definition fixedWindowSpec ::
  "int \<Rightarrow> nat \<Rightarrow> int \<Rightarrow> RateLimitEntry option \<Rightarrow> Decision \<times> RateLimitEntry option" where
  "fixedWindowSpec window cap t state =
     (case state of
        None \<Rightarrow> (Allow, Some \<lparr> count = 1, resetTime = t + window \<rparr>)
      | Some e \<Rightarrow>
          if resetTime e \<le> t then (Allow, Some \<lparr> count = 1, resetTime = t + window \<rparr>)
          else if count e < cap then (Allow, Some (e\<lparr> count := count e + 1 \<rparr>))
          else (Deny (ceilSeconds (resetTime e - t)), Some e))"

definition fixedWindow ::
  "int \<Rightarrow> nat \<Rightarrow> int \<Rightarrow> RateLimitEntry option \<Rightarrow> Decision \<times> RateLimitEntry option" where
  "fixedWindow window cap t state =
     (case state of
        None \<Rightarrow> (Allow, Some \<lparr> count = 1, resetTime = t + window \<rparr>)
      | Some e \<Rightarrow>
          if resetTime e < t then (Allow, Some \<lparr> count = 1, resetTime = t + window \<rparr>)
          else if count e < cap then (Allow, Some (e\<lparr> count := count e + 1 \<rparr>))
          else (Deny (ceilSeconds (resetTime e - t)), Some e))"

text \<open>What a middleware's answer says about the request: allowed, or denied for some seconds.\<close>

fun decision :: "Response \<Rightarrow> Decision option" where
  "decision Next = Some Allow"
| "decision (Status429 msg (Some secs)) = Some (Deny secs)"
| "decision (Status429 msg None) = None"

section \<open>Analytics (apps/api/src/middleware/analytics.ts)\<close>

text \<open>
  A \<^verbatim>\<open>RequestLog\<close> is an object that \<^verbatim>\<open>logRequest\<close> creates, pushes on \<^verbatim>\<open>requestLogs\<close> and
  returns to its caller, who hands it to \<^verbatim>\<open>logResponse\<close> later; the array and the caller share
  the object. The model has an explicit store of log objects (\<open>objects\<close>, with \<open>allocated\<close> the
  next free reference) and \<^verbatim>\<open>requestLogs\<close> is a list of references into it.

  A request is reduced to what \<^verbatim>\<open>logRequest\<close> reads: the result of \<^verbatim>\<open>getClientIp(req)\<close>, the
  path, the method and the user-agent header (the field \<^verbatim>\<open>method\<close> of a log entry is
  \<open>httpMethod\<close> here). The calendar date
  \<^verbatim>\<open>new Date().toISOString().split("T")[0]\<close> and the timestamp \<^verbatim>\<open>new Date().toISOString()\<close>
  are inputs. Durations are integer milliseconds; their sum and the counters are integers,
  which JavaScript's numbers hold exactly below 2^53.
\<close>

record Request =
  clientIp :: string
  path :: string
  requestMethod :: string
  userAgentHeader :: "string option"

record RequestLog =
  timestamp :: string
  ip :: string
  endpoint :: string
  httpMethod :: string
  useAI :: bool
  userAgent :: "string option"
  duration :: "int option"
  status :: "nat option"

text \<open>
  The division \<^verbatim>\<open>totalResponseTime / totalRequests\<close> of two integers. Its result is the
  double nearest to the quotient; the rounding \<open>nearest\<close> is a built-in of the engine and a
  parameter here, about which nothing is assumed. A zero divisor gives an infinity or \<open>NaN\<close>.
\<close>

definition jsDivide :: "(real \<Rightarrow> real) \<Rightarrow> int \<Rightarrow> nat \<Rightarrow> Number" where
  "jsDivide nearest a b =
     (if b \<noteq> 0 then Num (nearest (real_of_int a / real b))
      else if a > 0 then PosInfinity
      else if a < 0 then NegInfinity
      else NaN)"

record DailyStats =
  date :: string
  totalRequests :: nat
  aiRequests :: nat
  uniqueIPs :: "string set"
  endpoints :: "string \<rightharpoonup> nat"
  errors :: nat
  avgResponseTime :: Number

record Analytics =
  objects :: "nat \<rightharpoonup> RequestLog"
  allocated :: nat
  requestLogs :: "nat list"
  currentDayStats :: DailyStats
  historicalStats :: "DailyStats list"
  totalResponseTime :: int

definition MAX_LOGS :: nat where
  "MAX_LOGS = 1000"

definition freshStats :: "string \<Rightarrow> DailyStats" where
  "freshStats today = \<lparr>
     date = today,
     totalRequests = 0,
     aiRequests = 0,
     uniqueIPs = {},
     endpoints = Map.empty,
     errors = 0,
     avgResponseTime = Num 0 \<rparr>"

text \<open>The module's state when it is loaded on the date \<open>today\<close>.\<close>

definition initialAnalytics :: "string \<Rightarrow> Analytics" where
  "initialAnalytics today = \<lparr>
     objects = Map.empty,
     allocated = 0,
     requestLogs = [],
     currentDayStats = freshStats today,
     historicalStats = [],
     totalResponseTime = 0 \<rparr>"

text \<open>\<^verbatim>\<open>push\<close> followed by \<^verbatim>\<open>if (length > cap) shift()\<close>.\<close>

definition pushBounded :: "nat \<Rightarrow> 'a \<Rightarrow> 'a list \<Rightarrow> 'a list" where
  "pushBounded cap x xs = (let ys = xs @ [x] in if length ys > cap then tl ys else ys)"

definition checkAndResetDaily :: "string \<Rightarrow> Analytics \<Rightarrow> Analytics" where
  "checkAndResetDaily today s =
     (if date (currentDayStats s) \<noteq> today
      then s\<lparr> historicalStats := pushBounded 30 (currentDayStats s) (historicalStats s),
              currentDayStats := freshStats today,
              totalResponseTime := 0 \<rparr>
      else s)"

definition logRequest :: "string \<Rightarrow> string \<Rightarrow> Request \<Rightarrow> bool \<Rightarrow> Analytics \<Rightarrow> nat \<times> Analytics" where
  "logRequest today now req ai s0 =
     (let s = checkAndResetDaily today s0;
          entry = \<lparr> timestamp = now,
                    ip = clientIp req,
                    endpoint = path req,
                    httpMethod = requestMethod req,
                    useAI = ai,
                    userAgent = userAgentHeader req,
                    duration = None,
                    status = None \<rparr>;
          ref = allocated s;
          cur = currentDayStats s;
          endpointCount = (case endpoints cur (path req) of None \<Rightarrow> 0 | Some n \<Rightarrow> n)
      in (ref,
          s\<lparr> objects := (objects s)(ref \<mapsto> entry),
             allocated := ref + 1,
             requestLogs := pushBounded MAX_LOGS ref (requestLogs s),
             currentDayStats := cur\<lparr>
               totalRequests := totalRequests cur + 1,
               aiRequests := (if ai then aiRequests cur + 1 else aiRequests cur),
               uniqueIPs := insert (clientIp req) (uniqueIPs cur),
               endpoints := (endpoints cur)(path req \<mapsto> endpointCount + 1) \<rparr> \<rparr>))"

definition logResponse ::
  "(real \<Rightarrow> real) \<Rightarrow> nat \<Rightarrow> nat \<Rightarrow> int \<Rightarrow> Analytics \<Rightarrow> Analytics" where
  "logResponse nearest ref code ms s =
     (let cur = currentDayStats s;
          total = totalResponseTime s + ms
      in s\<lparr> objects :=
               (case objects s ref of
                  None \<Rightarrow> objects s
                | Some entry \<Rightarrow>
                    (objects s)(ref \<mapsto> entry\<lparr> status := Some code, duration := Some ms \<rparr>)),
             currentDayStats := cur\<lparr>
               errors := (if code \<ge> 400 then errors cur + 1 else errors cur),
               avgResponseTime := jsDivide nearest total (totalRequests cur) \<rparr>,
             totalResponseTime := total \<rparr>)"

text \<open>The request log as \<^verbatim>\<open>getAnalytics\<close> reads it: the objects behind the references.\<close>

definition logEntries :: "Analytics \<Rightarrow> RequestLog list" where
  "logEntries s = List.map_filter (objects s) (requestLogs s)"

subsection \<open>Traces\<close>

text \<open>
  What happens to the module over time: a request arrives (the logging middleware calls
  \<^verbatim>\<open>logRequest\<close>), a response finishes (the middleware calls \<^verbatim>\<open>logResponse\<close> with the log object
  of its request), or the date is checked without a request (the hourly timer, and
  \<^verbatim>\<open>getAnalytics\<close>).
\<close>

datatype Event =
    Arrive string string Request bool
  | Finish nat nat int
  | DateCheck string

fun step :: "(real \<Rightarrow> real) \<Rightarrow> Event \<Rightarrow> Analytics \<Rightarrow> Analytics" where
  "step nearest (Arrive today now req ai) s = snd (logRequest today now req ai s)"
| "step nearest (Finish ref code ms) s = logResponse nearest ref code ms s"
| "step nearest (DateCheck today) s = checkAndResetDaily today s"

definition run :: "(real \<Rightarrow> real) \<Rightarrow> string \<Rightarrow> Event list \<Rightarrow> Analytics" where
  "run nearest startDate evs = fold (step nearest) evs (initialAnalytics startDate)"

text \<open>
  The events of the current day, read off the trace alone: the day changes at an arrival or a
  date check whose date differs from the day's, and the day's events start afresh there (with
  the arrival itself, which belongs to the new day).
\<close>

fun track :: "Event \<Rightarrow> string \<times> Event list \<Rightarrow> string \<times> Event list" where
  "track (Arrive today now req ai) (d, seen) =
     (if today \<noteq> d then (today, [Arrive today now req ai])
      else (d, seen @ [Arrive today now req ai]))"
| "track (Finish ref code ms) (d, seen) = (d, seen @ [Finish ref code ms])"
| "track (DateCheck today) (d, seen) = (if today \<noteq> d then (today, []) else (d, seen))"







section \<open>Auxiliary definitions and concrete inputs\<close>

text \<open>
  A deterministic environment: the service always gives the same completion, the string
  built-ins leave the text alone, the parser always gives the same result, and no string and
  no array converts to a number.
\<close>

definition stubEnv :: "bool \<Rightarrow> Completion \<Rightarrow> Parsed option \<Rightarrow> Env" where
  "stubEnv enabled completion parsed = \<lparr>
     AI_ENABLED = enabled,
     createCompletion = (\<lambda>msg. completion),
     trim = (\<lambda>s. s),
     stripOpeningFence = (\<lambda>s. s),
     stripClosingFence = (\<lambda>s. s),
     JSON_parse = (\<lambda>s. parsed),
     stringToNumber = (\<lambda>s. NaN),
     arrayToNumber = (\<lambda>xs. Inr NaN) \<rparr>"

text \<open>
  A manually entered flow with the given goal and step texts; its identifiers and timestamps
  are arbitrary, no function of the engine reads them.
\<close>

definition flowOf :: "string \<Rightarrow> string list \<Rightarrow> Flow" where
  "flowOf g texts = \<lparr>
     flow_id = ''flow'',
     goal = g,
     steps = map (\<lambda>(i, t). \<lparr> step_id = natToString i, step_text = t \<rparr>) (enumerate 1 texts),
     createdAt = ''2025-01-01T00:00:00.000Z'',
     updatedAt = ''2025-01-01T00:00:00.000Z'',
     source = Some manual,
     sourceUrl = None \<rparr>"

definition plainFlow :: Flow where
  "plainFlow =
     flowOf ''look something up''
       [''Open app'', ''Type a question'', ''Read the answer'', ''Close app'']"

definition autoFlow :: Flow where
  "autoFlow =
     flowOf ''post for me''
       [''AI drafts a post'', ''AI picks a time'', ''Post goes out automatically'', ''Done'']"

definition scenarioFlow :: Flow where
  "scenarioFlow =
     flowOf ''approve posts'' [''AI generates content'', ''Post is automatically published'']"

text \<open>
  Findings as the AI service may report them: one with no field at all and one about control;
  what the latter is after normalisation; and an environment whose service reports it.
\<close>

definition rawEmpty :: RawFinding where
  "rawEmpty = \<lparr>
     raw_severity = None, raw_category = None, raw_title = None, raw_description = None,
     raw_evidence = None, raw_recommendation = None, raw_confidence = None,
     raw_principleId = None \<rparr>"

definition rawControl :: RawFinding where
  "rawControl = rawEmpty\<lparr>
     raw_severity := Some LOW,
     raw_category := Some CONTROL,
     raw_title := Some ''Publishing has no owner'',
     raw_confidence := Some (JNum (Num 0.9)) \<rparr>"

definition aiControl :: Finding where
  "aiControl = \<lparr>
     severity = LOW,
     category = CONTROL,
     title = ''Publishing has no owner'',
     description = ''No description provided'',
     evidence = [],
     recommendation = ''Review and improve this aspect'',
     confidence = Num 0.9,
     principleId = None \<rparr>"

definition controlEnv :: Env where
  "controlEnv = stubEnv True (Resolves (Some ''one finding''))
     (Some (FindingsArray [Some rawControl]))"

text \<open>A store in which one client's general window ends at the very millisecond 1000.\<close>

definition boundaryStore :: Store where
  "boundaryStore = [''10.0.0.1:general'' \<mapsto> \<lparr> count = 1, resetTime = 1000 \<rparr>]"

text \<open>One AI request per millisecond, \<open>n\<close> of them, from the time \<open>t\<close> on.\<close>

definition burst :: "int \<Rightarrow> nat \<Rightarrow> int list" where
  "burst t n = map (\<lambda>i. t + int i) [0..<n]"

text \<open>
  What \<^verbatim>\<open>trackCost\<close> answers and prints once it has raised the count of a running window
  to \<open>n\<close>.
\<close>

definition costAnswer :: "nat \<Rightarrow> Response \<times> CostLine list" where
  "costAnswer n =
     (if n \<ge> 100 then (Status429 ''Daily AI limit reached'' None, [CostAlert n])
      else if n \<ge> 80 then (Next, [CostWarning n, Usage n])
      else (Next, [Usage n]))"

text \<open>
  A request for the health check, and two short histories of the analytics module: one day
  with two requests; and a request of 2025-01-01 whose response finishes, after 1000 ms, on
  2025-01-02, when one request has arrived, which takes 10 ms. Every quotient that these
  histories divide out is a whole number and so a double already; \<open>wholeNumbers\<close>, which
  returns its argument, stands for the rounding there.
\<close>

definition wholeNumbers :: "real \<Rightarrow> real" where
  "wholeNumbers x = x"

definition healthRequest :: Request where
  "healthRequest = \<lparr>
     clientIp = ''10.0.0.1'',
     path = ''/health'',
     requestMethod = ''GET'',
     userAgentHeader = Some ''curl/8.0'' \<rparr>"

definition dayOne :: "Event list" where
  "dayOne =
     [Arrive ''2025-01-01'' ''2025-01-01T10:00:00.000Z'' healthRequest False,
      Arrive ''2025-01-01'' ''2025-01-01T10:00:01.000Z'' healthRequest True,
      Finish 1 200 12]"


text \<open>
  What every reachable state of the analytics module satisfies: the two buffers are within
  their caps and every reference handed out so far has its object.
\<close>

definition bounded :: "Analytics \<Rightarrow> bool" where
  "bounded s \<longleftrightarrow>
     length (requestLogs s) \<le> MAX_LOGS \<and> length (historicalStats s) \<le> 30
     \<and> (\<forall>r < allocated s. objects s r \<noteq> None)"

section \<open>Severity sort\<close>

lemma insort_key_front:
  "\<forall>y\<in>set ys. k x \<le> k y \<Longrightarrow> insort_key k x ys = x # ys"
  by (cases ys) auto

lemma insort_key_skip:
  "\<forall>y\<in>set xs. k y < k x \<Longrightarrow> insort_key k x (xs @ ys) = xs @ insort_key k x ys"
  by (induction xs) auto

lemma sortBySeverity_by_tier:
  "sortBySeverity fs =
     filter (\<lambda>f. severity f = HIGH) fs @ filter (\<lambda>f. severity f = MEDIUM) fs
     @ filter (\<lambda>f. severity f = LOW) fs"
proof (induction fs)
  case Nil
  show ?case by (simp add: sortBySeverity_def)
next
  case (Cons x fs)
  let ?k = "\<lambda>f. order (severity f)"
  let ?H = "filter (\<lambda>f. severity f = HIGH) fs"
  let ?M = "filter (\<lambda>f. severity f = MEDIUM) fs"
  let ?L = "filter (\<lambda>f. severity f = LOW) fs"
  have step: "sortBySeverity (x # fs) = insort_key ?k x (?H @ ?M @ ?L)"
    using Cons.IH by (simp add: sortBySeverity_def)
  show ?case
  proof (cases "severity x")
    case HIGH
    then have "insort_key ?k x (?H @ ?M @ ?L) = x # ?H @ ?M @ ?L"
      by (intro insort_key_front) simp
    with step HIGH show ?thesis by simp
  next
    case MEDIUM
    then have "insort_key ?k x (?H @ ?M @ ?L) = ?H @ insort_key ?k x (?M @ ?L)"
      by (intro insort_key_skip) simp
    moreover have "insort_key ?k x (?M @ ?L) = x # ?M @ ?L"
      using MEDIUM by (intro insort_key_front) auto
    ultimately show ?thesis using step MEDIUM by simp
  next
    case LOW
    then have "insort_key ?k x (?H @ ?M @ ?L) = ?H @ insort_key ?k x (?M @ ?L)"
      by (intro insort_key_skip) simp
    moreover have "insort_key ?k x (?M @ ?L) = ?M @ insort_key ?k x ?L"
      using LOW by (intro insort_key_skip) simp
    moreover have "insort_key ?k x ?L = x # ?L"
      using LOW by (intro insort_key_front) simp
    ultimately show ?thesis using step LOW by simp
  qed
qed

lemma set_sortBySeverity: "set (sortBySeverity fs) = set fs"
  by (simp add: sortBySeverity_def)

lemma mset_sortBySeverity: "mset (sortBySeverity fs) = mset fs"
  by (simp add: sortBySeverity_def)

lemma sorted_sortBySeverity: "sorted (map (\<lambda>f. order (severity f)) (sortBySeverity fs))"
  by (simp add: sortBySeverity_def)

lemma filter_severity_sortBySeverity:
  "filter (\<lambda>f. severity f = s) (sortBySeverity fs) = filter (\<lambda>f. severity f = s) fs"
proof -
  have same: "(\<lambda>f::Finding. order (severity f) = order s) = (\<lambda>f. severity f = s)"
  proof
    fix f :: Finding
    show "(order (severity f) = order s) = (severity f = s)"
      by (cases s; cases "severity f"; simp)
  qed
  show ?thesis
    using sort_key_stable [of "\<lambda>f. order (severity f)" "order s" fs]
    unfolding sortBySeverity_def same .
qed

text \<open>
  Claim C7. \<^verbatim>\<open>sortBySeverity\<close> returns the HIGH findings, then the MEDIUM ones, then the LOW
  ones, each tier in the order it had in the input. So the keys of the result ascend, and the
  findings of any one severity appear exactly as they did in the input. Four findings of
  severities LOW, HIGH, MEDIUM, HIGH come out as the second, the fourth, the third and the
  first.
\<close>

theorem sortBySeverity_stable_tiers:
  "sortBySeverity fs =
     filter (\<lambda>f. severity f = HIGH) fs @ filter (\<lambda>f. severity f = MEDIUM) fs
     @ filter (\<lambda>f. severity f = LOW) fs
   \<and> sorted (map (\<lambda>f. order (severity f)) (sortBySeverity fs))
   \<and> filter (\<lambda>f. severity f = s) (sortBySeverity fs) = filter (\<lambda>f. severity f = s) fs
   \<and> sortBySeverity
        [a\<lparr>severity := LOW\<rparr>, b\<lparr>severity := HIGH\<rparr>, c\<lparr>severity := MEDIUM\<rparr>,
         d\<lparr>severity := HIGH\<rparr>]
       = [b\<lparr>severity := HIGH\<rparr>, d\<lparr>severity := HIGH\<rparr>, c\<lparr>severity := MEDIUM\<rparr>,
          a\<lparr>severity := LOW\<rparr>]"
proof -
  have "sortBySeverity
        [a\<lparr>severity := LOW\<rparr>, b\<lparr>severity := HIGH\<rparr>, c\<lparr>severity := MEDIUM\<rparr>,
         d\<lparr>severity := HIGH\<rparr>]
       = [b\<lparr>severity := HIGH\<rparr>, d\<lparr>severity := HIGH\<rparr>, c\<lparr>severity := MEDIUM\<rparr>,
          a\<lparr>severity := LOW\<rparr>]"
    by (simp add: sortBySeverity_by_tier)
  then show ?thesis
    using sortBySeverity_by_tier [of fs] sorted_sortBySeverity [of fs]
      filter_severity_sortBySeverity [of s fs]
    by blast
qed

section \<open>Rule evaluator: the checks that fire\<close>

lemmas keyword_defs = failureTerms_def approvalTerms_def autoActTerms_def explainTerms_def
  progressTerms_def memoryTerms_def undoTerms_def trustTerms_def confidenceTerms_def

lemma someStep_texts:
  "someStep flow ts = list_ex (\<lambda>t. includesAny t ts) (map step_text (steps flow))"
  by (simp add: someStep_def list_ex_iff)

lemma step_texts_flowOf: "map step_text (steps (flowOf g texts)) = texts"
proof -
  have "map (\<lambda>(i, t). t) (enumerate n texts) = texts" for n
    by (induction texts arbitrary: n) simp_all
  then show ?thesis
    by (simp add: flowOf_def split_def comp_def)
qed

lemma length_steps_flowOf: "length (steps (flowOf g texts)) = length texts"
  by (simp add: flowOf_def)

lemma plainFlow_keywords:
  "\<not> someStep plainFlow failureTerms" "\<not> someStep plainFlow approvalTerms"
  "\<not> someStep plainFlow autoActTerms" "\<not> someStep plainFlow explainTerms"
  "\<not> someStep plainFlow progressTerms" "\<not> someStep plainFlow memoryTerms"
  "\<not> someStep plainFlow undoTerms" "\<not> someStep plainFlow trustTerms"
  "\<not> someStep plainFlow confidenceTerms"
  unfolding someStep_texts plainFlow_def step_texts_flowOf
  by (simp_all add: keyword_defs includesAny_def toLowerCase_def lowerChar_def)

lemma autoFlow_keywords:
  "\<not> someStep autoFlow failureTerms" "\<not> someStep autoFlow approvalTerms"
  "someStep autoFlow autoActTerms" "\<not> someStep autoFlow explainTerms"
  "\<not> someStep autoFlow progressTerms" "\<not> someStep autoFlow memoryTerms"
  "\<not> someStep autoFlow undoTerms" "\<not> someStep autoFlow trustTerms"
  "\<not> someStep autoFlow confidenceTerms"
  unfolding someStep_texts autoFlow_def step_texts_flowOf
  by (simp_all add: keyword_defs includesAny_def toLowerCase_def lowerChar_def)

lemma scenario_keywords:
  assumes "map step_text (steps flow)
             = [''AI generates content'', ''Post is automatically published'']"
  shows "\<not> someStep flow failureTerms" "\<not> someStep flow approvalTerms"
    "someStep flow autoActTerms" "\<not> someStep flow explainTerms"
    "\<not> someStep flow progressTerms" "\<not> someStep flow memoryTerms"
    "\<not> someStep flow undoTerms" "\<not> someStep flow trustTerms"
    "\<not> someStep flow confidenceTerms"
  unfolding someStep_texts assms
  by (simp_all add: keyword_defs includesAny_def toLowerCase_def lowerChar_def)

lemma scenarioFlow_texts:
  "goal scenarioFlow = ''approve posts''"
  "map step_text (steps scenarioFlow)
     = [''AI generates content'', ''Post is automatically published'']"
  by (simp_all add: scenarioFlow_def step_texts_flowOf) (simp add: flowOf_def)

lemma length_steps_fixtures:
  "length (steps plainFlow) = 4" "length (steps autoFlow) = 4"
  by (simp_all add: plainFlow_def autoFlow_def length_steps_flowOf)

text \<open>
  Claim C1 as stated fails. No step of \<open>plainFlow\<close> (four steps) contains a term of any of the
  nine keyword lists, and \<^verbatim>\<open>runRules\<close> returns four findings, those of the checks 1, 3, 4
  and 5, not eight: the checks 2, 6, 7 and 8 need autonomous-action language to be present.
\<close>

theorem runRules_no_keywords_counterexample:
  "\<not> someStep plainFlow failureTerms \<and> \<not> someStep plainFlow approvalTerms
   \<and> \<not> someStep plainFlow autoActTerms \<and> \<not> someStep plainFlow explainTerms
   \<and> \<not> someStep plainFlow progressTerms \<and> \<not> someStep plainFlow memoryTerms
   \<and> \<not> someStep plainFlow undoTerms \<and> \<not> someStep plainFlow trustTerms
   \<and> \<not> someStep plainFlow confidenceTerms
   \<and> runRules plainFlow = [finding1, finding3, finding4, finding5]
   \<and> length (runRules plainFlow) \<noteq> 8"
  by (simp add: plainFlow_keywords runRules_def length_steps_fixtures)

lemma finding_grades:
  "severity finding1 = HIGH \<and> category finding1 = RECOVERY \<and> confidence finding1 = Num 0.9"
  "severity finding2 = HIGH \<and> category finding2 = CONTROL \<and> confidence finding2 = Num 0.95"
  "severity finding3 = MEDIUM \<and> category finding3 = TRANSPARENCY \<and> confidence finding3 = Num 0.85"
  "severity finding4 = MEDIUM \<and> category finding4 = TRANSPARENCY \<and> confidence finding4 = Num 0.8"
  "severity finding5 = MEDIUM \<and> category finding5 = MEMORY \<and> confidence finding5 = Num 0.75"
  "severity finding6 = MEDIUM \<and> category finding6 = CONTROL \<and> confidence finding6 = Num 0.85"
  "severity finding7 = LOW \<and> category finding7 = TRUST \<and> confidence finding7 = Num 0.7"
  "severity finding8 = LOW \<and> category finding8 = TRUST \<and> confidence finding8 = Num 0.8"
  by (simp_all add: finding1_def finding2_def finding3_def finding4_def finding5_def
      finding6_def finding7_def finding8_def)

text \<open>
  Claim C1, amended. Let no step of the flow contain a term of the eight keyword lists whose
  absence the checks test (failure, approval, explanation, progress, memory, undo, trust,
  confidence). Then \<^verbatim>\<open>runRules\<close> returns, in this order: the finding of check 1; that of
  check 2 if and only if some step contains an autonomous-action term; that of check 3; that
  of check 4 if and only if the flow has more than 3 steps; that of check 5 if and only if it
  has more than 2 steps; those of the checks 6, 7 and 8 if and only if some step contains an
  autonomous-action term. So it returns exactly 8 findings if and only if autonomous-action
  language is present and the flow has more than 3 steps, and then one per check. The eight
  findings carry the documented severity, category and confidence.
\<close>

theorem runRules_no_keywords:
  assumes "\<not> someStep flow failureTerms" and "\<not> someStep flow approvalTerms"
    and "\<not> someStep flow explainTerms" and "\<not> someStep flow progressTerms"
    and "\<not> someStep flow memoryTerms" and "\<not> someStep flow undoTerms"
    and "\<not> someStep flow trustTerms" and "\<not> someStep flow confidenceTerms"
  shows "runRules flow =
           [finding1] @ (if someStep flow autoActTerms then [finding2] else []) @ [finding3]
           @ (if length (steps flow) > 3 then [finding4] else [])
           @ (if length (steps flow) > 2 then [finding5] else [])
           @ (if someStep flow autoActTerms then [finding6, finding7, finding8] else [])
         \<and> (length (runRules flow) = 8
              \<longleftrightarrow> someStep flow autoActTerms \<and> length (steps flow) > 3)
         \<and> (someStep flow autoActTerms \<and> length (steps flow) > 3 \<longrightarrow>
              runRules flow =
                [finding1, finding2, finding3, finding4, finding5, finding6, finding7, finding8])
         \<and> map (\<lambda>f. (severity f, category f, confidence f))
              [finding1, finding2, finding3, finding4, finding5, finding6, finding7, finding8]
            = [(HIGH, RECOVERY, Num 0.9), (HIGH, CONTROL, Num 0.95), (MEDIUM, TRANSPARENCY, Num 0.85),
               (MEDIUM, TRANSPARENCY, Num 0.8), (MEDIUM, MEMORY, Num 0.75), (MEDIUM, CONTROL, Num 0.85),
               (LOW, TRUST, Num 0.7), (LOW, TRUST, Num 0.8)]"
  using assms by (simp add: runRules_def finding_grades)

text \<open>
  Witness for C1: the four steps of \<open>autoFlow\<close> contain the term "automatically" and no term
  of the other eight lists, and all eight checks fire.
\<close>

theorem runRules_no_keywords_witness:
  "\<not> someStep autoFlow failureTerms \<and> \<not> someStep autoFlow approvalTerms
   \<and> \<not> someStep autoFlow explainTerms \<and> \<not> someStep autoFlow progressTerms
   \<and> \<not> someStep autoFlow memoryTerms \<and> \<not> someStep autoFlow undoTerms
   \<and> \<not> someStep autoFlow trustTerms \<and> \<not> someStep autoFlow confidenceTerms
   \<and> someStep autoFlow autoActTerms \<and> length (steps autoFlow) > 3
   \<and> runRules autoFlow =
       [finding1, finding2, finding3, finding4, finding5, finding6, finding7, finding8]"
  using runRules_no_keywords [of autoFlow]
  by (simp add: autoFlow_keywords length_steps_fixtures)

lemma runRules_scenario:
  assumes "map step_text (steps flow)
             = [''AI generates content'', ''Post is automatically published'']"
  shows "runRules flow = [finding1, finding2, finding3, finding6, finding7, finding8]"
proof -
  have "length (map step_text (steps flow)) = 2"
    by (simp only: assms) simp
  then have "length (steps flow) = 2"
    by simp
  then show ?thesis
    by (simp add: runRules_def scenario_keywords [OF assms])
qed

lemma runRules_scenarioFlow:
  "runRules scenarioFlow = [finding1, finding2, finding3, finding6, finding7, finding8]"
  by (rule runRules_scenario) (rule scenarioFlow_texts)

lemma runRules_autoFlow:
  "runRules autoFlow = [finding1, finding2, finding3, finding4, finding5, finding6, finding7, finding8]"
  by (simp add: runRules_def autoFlow_keywords length_steps_fixtures)

lemma runHybridAnalysis_rule_only:
  "runHybridAnalysis env flow False = sortBySeverity (runRules flow)"
  by (simp add: runHybridAnalysis_def)

lemma scenario_findings:
  assumes "map step_text (steps flow)
             = [''AI generates content'', ''Post is automatically published'']"
  shows "findings (performFlowAnalysis env flow False)
           = [finding1, finding2, finding3, finding6, finding7, finding8]"
  by (simp add: performFlowAnalysis_def Let_def runHybridAnalysis_rule_only
      runRules_scenario [OF assms] sortBySeverity_by_tier finding_grades)

lemma finding2_texts:
  "title finding2 = ''AI takes actions without user approval''"
  "evidence finding2 =
       [''AI executes actions automatically'', ''No approval or confirmation step'',
        ''User cannot review before action'']"
  by (simp_all add: finding2_def)

text \<open>
  Claim C5, amended. For a flow with the goal "approve posts" and the two steps "AI generates
  content" and "Post is automatically published", analysed without AI, the findings are
  those of the checks 1, 2, 3, 6, 7 and 8. The finding of check 2 is HIGH and CONTROL, its
  title is "AI takes actions without user approval", its confidence is 0.95 and its evidence
  is the fixed list of three sentences of the rule, which does not quote the flow. The overall
  risk is HIGH.
\<close>

theorem scenario_rule_only:
  assumes "goal flow = ''approve posts''"
    and "map step_text (steps flow)
           = [''AI generates content'', ''Post is automatically published'']"
  shows "findings (performFlowAnalysis env flow False)
           = [finding1, finding2, finding3, finding6, finding7, finding8]
         \<and> severity finding2 = HIGH \<and> category finding2 = CONTROL
         \<and> title finding2 = ''AI takes actions without user approval''
         \<and> evidence finding2 =
             [''AI executes actions automatically'', ''No approval or confirmation step'',
              ''User cannot review before action'']
         \<and> confidence finding2 = Num 0.95
         \<and> overallRisk (performFlowAnalysis env flow False) = HIGH"
proof -
  have "overallRisk (performFlowAnalysis env flow False) = HIGH"
    by (simp add: performFlowAnalysis_def Let_def runHybridAnalysis_rule_only
        runRules_scenario [OF assms(2)] sortBySeverity_by_tier calculateOverallRisk_def
        finding_grades)
  then show ?thesis
    by (simp add: scenario_findings [OF assms(2)] finding2_texts finding_grades)
qed

text \<open>
  Claim C5 as stated fails. In the scenario the only HIGH finding of category CONTROL is the
  one of check 2, and none of its evidence strings contains "automatically published".
\<close>

theorem scenario_evidence_counterexample:
  "filter (\<lambda>f. severity f = HIGH \<and> category f = CONTROL)
     (findings (performFlowAnalysis (stubEnv False Rejects None) scenarioFlow False)) = [finding2]
   \<and> \<not> list_ex (\<lambda>e. str_includes e ''automatically published'') (evidence finding2)"
proof -
  have "\<not> list_ex (\<lambda>e. str_includes e ''automatically published'') (evidence finding2)"
    by (simp add: finding2_texts)
  then show ?thesis
    by (simp add: scenario_findings [OF scenarioFlow_texts(2)] finding_grades)
qed

text \<open>
  Witness for C5: the scenario flow as it is entered by hand, analysed in an environment
  without an API key.
\<close>

theorem scenario_rule_only_witness:
  "goal scenarioFlow = ''approve posts''
   \<and> map step_text (steps scenarioFlow)
       = [''AI generates content'', ''Post is automatically published'']
   \<and> findings (performFlowAnalysis (stubEnv False Rejects None) scenarioFlow False)
       = [finding1, finding2, finding3, finding6, finding7, finding8]
   \<and> overallRisk (performFlowAnalysis (stubEnv False Rejects None) scenarioFlow False) = HIGH"
  using scenario_rule_only [of scenarioFlow "stubEnv False Rejects None"]
  by (simp add: scenarioFlow_texts)

section \<open>Hybrid merge\<close>

lemma runHybridAnalysis_with_ai:
  assumes "ai" and "AI_ENABLED env"
  shows "runHybridAnalysis env flow ai =
           sortBySeverity
             (runAIAnalysis env flow
              @ filter (\<lambda>rf. category rf \<notin> category ` set (runAIAnalysis env flow))
                  (runRules flow))"
  using assms by (simp add: runHybridAnalysis_def Let_def)

lemma normalizeFinding_rawControl: "normalizeFinding env rawControl = Inr aiControl"
  by (simp add: normalizeFinding_def clampConfidence_def toNumber_def rawControl_def
      rawEmpty_def aiControl_def orValue_def orString_def)

lemma runAIAnalysis_controlEnv: "runAIAnalysis controlEnv flow = [aiControl]"
  by (simp add: runAIAnalysis_def runAIAnalysisBody_def controlEnv_def stubEnv_def Let_def
      normalizeFinding_rawControl)

text \<open>
  Claim C4. When AI is requested and enabled, \<^verbatim>\<open>runHybridAnalysis\<close> returns the severity sort
  of the AI findings followed by the rule findings whose category no AI finding has. Every AI
  finding is in the result. For a category \<open>c\<close> that some AI finding has, the findings of
  category \<open>c\<close> in the result are exactly the AI findings of that category (with their
  multiplicities): every rule finding of category \<open>c\<close> is dropped. For any other category
  they are exactly the rule findings of that category: every one is kept. In particular, when
  some AI finding has the category CONTROL, every CONTROL finding of the result is an AI
  finding.
\<close>

theorem runHybridAnalysis_merge:
  assumes "ai" and "AI_ENABLED env"
  shows "runHybridAnalysis env flow ai =
           sortBySeverity
             (runAIAnalysis env flow
              @ filter (\<lambda>rf. category rf \<notin> category ` set (runAIAnalysis env flow))
                  (runRules flow))
         \<and> set (runAIAnalysis env flow) \<subseteq> set (runHybridAnalysis env flow ai)
         \<and> (c \<in> category ` set (runAIAnalysis env flow) \<longrightarrow>
               mset (filter (\<lambda>f. category f = c) (runHybridAnalysis env flow ai))
                 = mset (filter (\<lambda>f. category f = c) (runAIAnalysis env flow)))
         \<and> (c \<notin> category ` set (runAIAnalysis env flow) \<longrightarrow>
               mset (filter (\<lambda>f. category f = c) (runHybridAnalysis env flow ai))
                 = mset (filter (\<lambda>f. category f = c) (runRules flow)))
         \<and> ((\<exists>a \<in> set (runAIAnalysis env flow). category a = CONTROL) \<longrightarrow>
               (\<forall>f \<in> set (runHybridAnalysis env flow ai).
                  category f = CONTROL \<longrightarrow> f \<in> set (runAIAnalysis env flow)))"
proof -
  let ?ai = "runAIAnalysis env flow"
  let ?kept = "filter (\<lambda>rf. category rf \<notin> category ` set ?ai) (runRules flow)"
  have res: "runHybridAnalysis env flow ai = sortBySeverity (?ai @ ?kept)"
    using assms by (rule runHybridAnalysis_with_ai)
  have cat: "mset (filter (\<lambda>f. category f = c) (runHybridAnalysis env flow ai))
             = mset (filter (\<lambda>f. category f = c) ?ai) + mset (filter (\<lambda>f. category f = c) ?kept)"
    by (simp add: res mset_sortBySeverity filter_filter_mset)
  have overridden: "mset (filter (\<lambda>f. category f = c) (runHybridAnalysis env flow ai))
                     = mset (filter (\<lambda>f. category f = c) ?ai)"
    if "c \<in> category ` set ?ai"
  proof -
    have "filter (\<lambda>f. category f = c) ?kept = []"
      using that by (auto simp: filter_empty_conv)
    then show ?thesis
      using cat by simp
  qed
  have preserved: "mset (filter (\<lambda>f. category f = c) (runHybridAnalysis env flow ai))
                     = mset (filter (\<lambda>f. category f = c) (runRules flow))"
    if "c \<notin> category ` set ?ai"
  proof -
    have "filter (\<lambda>f. category f = c) ?ai = []"
      using that by (auto simp: filter_empty_conv)
    moreover have "filter (\<lambda>f. category f = c) ?kept
                   = filter (\<lambda>f. category f = c) (runRules flow)"
      using that by (auto intro: filter_cong)
    ultimately show ?thesis
      using cat by simp
  qed
  have sub: "set ?ai \<subseteq> set (runHybridAnalysis env flow ai)"
    by (simp add: res set_sortBySeverity)
  have control: "(\<exists>a \<in> set ?ai. category a = CONTROL) \<longrightarrow>
               (\<forall>f \<in> set (runHybridAnalysis env flow ai).
                  category f = CONTROL \<longrightarrow> f \<in> set ?ai)"
  proof (intro impI ballI)
    fix f
    assume "\<exists>a \<in> set ?ai. category a = CONTROL"
    then have has_control: "CONTROL \<in> category ` set ?ai"
      by (metis imageI)
    assume "f \<in> set (runHybridAnalysis env flow ai)" and "category f = CONTROL"
    then have "f \<in> set ?ai \<or> f \<in> set ?kept"
      by (simp add: res set_sortBySeverity)
    moreover have "f \<notin> set ?kept"
      using has_control \<open>category f = CONTROL\<close> by simp
    ultimately show "f \<in> set ?ai"
      by blast
  qed
  have in_ai: "c \<in> category ` set ?ai \<longrightarrow>
               mset (filter (\<lambda>f. category f = c) (runHybridAnalysis env flow ai))
                 = mset (filter (\<lambda>f. category f = c) ?ai)"
    by (intro impI) (rule overridden)
  have not_in_ai: "c \<notin> category ` set ?ai \<longrightarrow>
               mset (filter (\<lambda>f. category f = c) (runHybridAnalysis env flow ai))
                 = mset (filter (\<lambda>f. category f = c) (runRules flow))"
    by (intro impI) (rule preserved)
  show ?thesis
    by (rule conjI [OF res conjI [OF sub conjI [OF in_ai conjI [OF not_in_ai control]]]])
qed

text \<open>
  Witness for C4: the service reports one CONTROL finding for \<open>autoFlow\<close>, on which all eight
  checks fire. The two CONTROL findings of the rules (checks 2 and 6) are gone, the AI finding
  is there, and the result is sorted by severity.
\<close>

theorem runHybridAnalysis_merge_witness:
  "AI_ENABLED controlEnv
   \<and> runAIAnalysis controlEnv autoFlow = [aiControl] \<and> category aiControl = CONTROL
   \<and> finding2 \<in> set (runRules autoFlow) \<and> category finding2 = CONTROL
   \<and> runHybridAnalysis controlEnv autoFlow True
       = [finding1, finding3, finding4, finding5, aiControl, finding7, finding8]"
proof -
  have enabled: "AI_ENABLED controlEnv"
    by (simp add: controlEnv_def stubEnv_def)
  have cats: "category aiControl = CONTROL" "severity aiControl = LOW"
    by (simp_all add: aiControl_def)
  have "runHybridAnalysis controlEnv autoFlow True
       = [finding1, finding3, finding4, finding5, aiControl, finding7, finding8]"
    using runHybridAnalysis_merge [of True controlEnv autoFlow CONTROL] enabled
    by (simp add: runAIAnalysis_controlEnv runRules_autoFlow cats finding_grades
        sortBySeverity_by_tier)
  then show ?thesis
    by (simp add: enabled runAIAnalysis_controlEnv runRules_autoFlow cats finding_grades)
qed

section \<open>Failures of the AI findings source\<close>

lemma runAIAnalysis_failed:
  "runAIAnalysisBody env flow = Inl e \<Longrightarrow> runAIAnalysis env flow = []"
  by (simp add: runAIAnalysis_def)

lemma runHybridAnalysis_no_ai_findings:
  "runAIAnalysis env flow = [] \<Longrightarrow> runHybridAnalysis env flow ai = sortBySeverity (runRules flow)"
  by (simp add: runHybridAnalysis_def Let_def)

text \<open>
  Claim C6. Let the call to the AI service reject (an exception, a timeout, an API error), or
  let it answer with a text that \<^verbatim>\<open>JSON.parse\<close> does not accept. Then the \<^verbatim>\<open>try\<close> block of
  \<^verbatim>\<open>runAIAnalysis\<close> ends in an exception, \<^verbatim>\<open>runAIAnalysis\<close> returns the empty list all the
  same, and \<^verbatim>\<open>runHybridAnalysis\<close> returns the severity-sorted rule findings, for every flow
  and whether or not AI was requested.
\<close>

theorem runHybridAnalysis_ai_failure:
  assumes "createCompletion env (userMessage flow) = Rejects
           \<or> (\<exists>content. createCompletion env (userMessage flow) = Resolves content
                 \<and> JSON_parse env (cleanJSONResponse env (orString content ''{}'')) = None)"
  shows "(\<exists>e. runAIAnalysisBody env flow = Inl e)
         \<and> runAIAnalysis env flow = []
         \<and> runHybridAnalysis env flow ai = sortBySeverity (runRules flow)"
proof -
  from assms have "\<exists>e. runAIAnalysisBody env flow = Inl e"
  proof
    assume "createCompletion env (userMessage flow) = Rejects"
    then have "runAIAnalysisBody env flow = Inl CallError"
      by (simp add: runAIAnalysisBody_def)
    then show ?thesis ..
  next
    assume "\<exists>content. createCompletion env (userMessage flow) = Resolves content
                 \<and> JSON_parse env (cleanJSONResponse env (orString content ''{}'')) = None"
    then have "runAIAnalysisBody env flow = Inl SyntaxError"
      by (auto simp: runAIAnalysisBody_def Let_def)
    then show ?thesis ..
  qed
  then obtain e where failed: "runAIAnalysisBody env flow = Inl e" ..
  then have "runAIAnalysis env flow = []"
    by (rule runAIAnalysis_failed)
  then show ?thesis
    using failed by (simp add: runHybridAnalysis_no_ai_findings)
qed

text \<open>
  Witness for C6: a service that rejects, and a service whose answer does not parse, both
  with AI requested and enabled, on the scenario flow.
\<close>

theorem runHybridAnalysis_ai_failure_witness:
  "createCompletion (stubEnv True Rejects None) (userMessage scenarioFlow) = Rejects
   \<and> runHybridAnalysis (stubEnv True Rejects None) scenarioFlow True
       = [finding1, finding2, finding3, finding6, finding7, finding8]
   \<and> createCompletion (stubEnv True (Resolves (Some ''not json'')) None) (userMessage scenarioFlow)
       = Resolves (Some ''not json'')
   \<and> JSON_parse (stubEnv True (Resolves (Some ''not json'')) None)
        (cleanJSONResponse (stubEnv True (Resolves (Some ''not json'')) None)
           (orString (Some ''not json'') ''{}'')) = None
   \<and> runHybridAnalysis (stubEnv True (Resolves (Some ''not json'')) None) scenarioFlow True
       = [finding1, finding2, finding3, finding6, finding7, finding8]"
proof -
  have sorted: "sortBySeverity (runRules scenarioFlow)
                = [finding1, finding2, finding3, finding6, finding7, finding8]"
    by (simp add: runRules_scenarioFlow sortBySeverity_by_tier finding_grades)
  have rejects: "createCompletion (stubEnv True Rejects None) (userMessage scenarioFlow) = Rejects"
    by (simp add: stubEnv_def)
  have garbled:
    "createCompletion (stubEnv True (Resolves (Some ''not json'')) None) (userMessage scenarioFlow)
       = Resolves (Some ''not json'')"
    "JSON_parse (stubEnv True (Resolves (Some ''not json'')) None)
        (cleanJSONResponse (stubEnv True (Resolves (Some ''not json'')) None)
           (orString (Some ''not json'') ''{}'')) = None"
    by (simp_all add: stubEnv_def)
  show ?thesis
    using runHybridAnalysis_ai_failure [of "stubEnv True Rejects None" scenarioFlow True]
      runHybridAnalysis_ai_failure
        [of "stubEnv True (Resolves (Some ''not json'')) None" scenarioFlow True]
      rejects garbled
    by (simp add: sorted)
qed

section \<open>Normalisation of AI findings\<close>











section \<open>Fixed-window counters\<close>

lemma ceilSeconds_ceiling: "ceilSeconds ms = \<lceil>real_of_int ms / 1000\<rceil>"
proof -
  have "\<lceil>real_of_int ms / 1000\<rceil> = - \<lfloor>real_of_int (- ms) / real_of_int 1000\<rfloor>"
    by (simp add: ceiling_def)
  also have "\<dots> = - ((- ms) div 1000)"
    by (simp only: floor_divide_of_int_eq)
  finally show ?thesis
    by (simp add: ceilSeconds_def)
qed

text \<open>
  Claim C2 as stated fails. A request arrives at the very millisecond at which its client's
  window ends (\<open>resetAt = t\<close>). By the rule of the claim the entry is replaced by
  Active(1, t + window); \<^verbatim>\<open>rateLimiter\<close> tests \<^verbatim>\<open>entry.resetTime < now\<close>, takes the window as
  still running and increments the count.
\<close>

theorem rateLimiter_boundary_counterexample:
  "boundaryStore ''10.0.0.1:general'' = Some \<lparr> count = 1, resetTime = 1000 \<rparr>
   \<and> fixedWindowSpec RATE_LIMIT_WINDOW 10 1000 (boundaryStore ''10.0.0.1:general'')
       = (Allow, Some \<lparr> count = 1, resetTime = 61000 \<rparr>)
   \<and> fst (rateLimiter 10 ''10.0.0.1'' 1000 boundaryStore) = Next
   \<and> snd (rateLimiter 10 ''10.0.0.1'' 1000 boundaryStore) ''10.0.0.1:general''
       = Some \<lparr> count = 2, resetTime = 1000 \<rparr>"
  by (simp add: boundaryStore_def fixedWindowSpec_def rateLimiter_def RATE_LIMIT_WINDOW_def Let_def)

lemma rateLimiter_fixedWindow:
  "decision (fst (rateLimiter cap client t store))
     = Some (fst (fixedWindow RATE_LIMIT_WINDOW cap t (store (client @ '':general''))))
   \<and> snd (rateLimiter cap client t store)
     = store(client @ '':general'' := snd (fixedWindow RATE_LIMIT_WINDOW cap t (store (client @ '':general''))))"
  by (auto simp: rateLimiter_def fixedWindow_def Let_def split: option.splits)

lemma aiRateLimiter_fixedWindow:
  "decision (fst (aiRateLimiter client t store))
     = Some (fst (fixedWindow AI_LIMIT_WINDOW MAX_AI_REQUESTS_PER_HOUR t (store (client @ '':ai''))))
   \<and> snd (aiRateLimiter client t store)
     = store(client @ '':ai'' := snd (fixedWindow AI_LIMIT_WINDOW MAX_AI_REQUESTS_PER_HOUR t (store (client @ '':ai''))))"
  by (auto simp: aiRateLimiter_def fixedWindow_def Let_def split: option.splits)

lemma fixedWindow_cases:
  "(state = None \<or> (\<exists>e. state = Some e \<and> resetTime e < t) \<longrightarrow>
      fixedWindow window cap t state = (Allow, Some \<lparr> count = 1, resetTime = t + window \<rparr>))
   \<and> (state = Some e \<and> t \<le> resetTime e \<and> count e < cap \<longrightarrow>
      fixedWindow window cap t state = (Allow, Some (e\<lparr> count := count e + 1 \<rparr>)))
   \<and> (state = Some e \<and> t \<le> resetTime e \<and> cap \<le> count e \<longrightarrow>
      fixedWindow window cap t state = (Deny \<lceil>real_of_int (resetTime e - t) / 1000\<rceil>, Some e))"
  by (auto simp: fixedWindow_def ceilSeconds_ceiling)

lemma rateLimiter_after_cleanup:
  assumes "t0 \<le> t"
  shows "fst (rateLimiter cap client t (cleanup t0 store)) = fst (rateLimiter cap client t store)"
  using assms by (auto simp: rateLimiter_def cleanup_def Let_def split: option.splits)

lemma trackCost_new_window:
  "tracker costKey = None \<or> (\<exists>e. tracker costKey = Some e \<and> resetTime e < t) \<Longrightarrow>
   trackCost t tracker
     = ((Next, [Usage 1]), tracker(costKey \<mapsto> \<lparr> count = 1, resetTime = t + DAILY_WINDOW \<rparr>))"
  by (auto simp: trackCost_def Let_def)

lemma decision_Allow_iff: "decision r = Some Allow \<longleftrightarrow> r = Next"
  by (cases r rule: decision.cases) simp_all

text \<open>
  Claim C2, amended. The two per-client limiters implement the machine \<open>fixedWindow\<close> on the
  entry of their key, with their window and cap, and leave every other entry alone:
  \<^verbatim>\<open>rateLimiter\<close> on the key "client:general" with the window of one minute and the given
  cap, \<^verbatim>\<open>aiRateLimiter\<close> on the key "client:ai" with the window of one hour and the cap 20.
  The daily cost counter shares the window replacement: when its entry is absent or its
  reset time is before \<open>t\<close>, \<^verbatim>\<open>trackCost\<close> lets the request pass and replaces the entry by
  Active(1, t + 24 h), as \<open>fixedWindow\<close> does. The rules of \<open>fixedWindow\<close> are: an absent
  entry, or one with \<open>resetAt < t\<close>, is replaced by Active(1, t + window) and the request is
  allowed; with \<open>resetAt \<ge> t\<close> and \<open>count < cap\<close> the count is incremented and the request
  is allowed; with \<open>resetAt \<ge> t\<close> and \<open>count \<ge> cap\<close> the request is denied, the entry is
  unchanged and the answer carries the milliseconds until \<open>resetAt\<close> in seconds, rounded up.
\<close>

theorem fixed_window_transitions:
  "decision (fst (rateLimiter cap client t store))
     = Some (fst (fixedWindow RATE_LIMIT_WINDOW cap t (store (client @ '':general''))))
   \<and> snd (rateLimiter cap client t store)
     = store(client @ '':general'' :=
         snd (fixedWindow RATE_LIMIT_WINDOW cap t (store (client @ '':general''))))
   \<and> decision (fst (aiRateLimiter client t store))
     = Some (fst (fixedWindow AI_LIMIT_WINDOW MAX_AI_REQUESTS_PER_HOUR t (store (client @ '':ai''))))
   \<and> snd (aiRateLimiter client t store)
     = store(client @ '':ai'' :=
         snd (fixedWindow AI_LIMIT_WINDOW MAX_AI_REQUESTS_PER_HOUR t (store (client @ '':ai''))))
   \<and> (tracker costKey = None \<or> (\<exists>old. tracker costKey = Some old \<and> resetTime old < t) \<longrightarrow>
        fst (fst (trackCost t tracker)) = Next
        \<and> snd (trackCost t tracker)
            = tracker(costKey := snd (fixedWindow DAILY_WINDOW DAILY_AI_LIMIT t (tracker costKey)))
        \<and> snd (trackCost t tracker) costKey
            = Some \<lparr> count = 1, resetTime = t + DAILY_WINDOW \<rparr>)
   \<and> (state = None \<or> (\<exists>old. state = Some old \<and> resetTime old < t) \<longrightarrow>
        fixedWindow window cap t state = (Allow, Some \<lparr> count = 1, resetTime = t + window \<rparr>))
   \<and> (state = Some e \<and> t \<le> resetTime e \<and> count e < cap \<longrightarrow>
        fixedWindow window cap t state = (Allow, Some (e\<lparr> count := count e + 1 \<rparr>)))
   \<and> (state = Some e \<and> t \<le> resetTime e \<and> cap \<le> count e \<longrightarrow>
        fixedWindow window cap t state
          = (Deny \<lceil>real_of_int (resetTime e - t) / 1000\<rceil>, Some e))"
proof -
  have cost: "tracker costKey = None \<or> (\<exists>old. tracker costKey = Some old \<and> resetTime old < t) \<longrightarrow>
        fst (fst (trackCost t tracker)) = Next
        \<and> snd (trackCost t tracker)
            = tracker(costKey := snd (fixedWindow DAILY_WINDOW DAILY_AI_LIMIT t (tracker costKey)))
        \<and> snd (trackCost t tracker) costKey
            = Some \<lparr> count = 1, resetTime = t + DAILY_WINDOW \<rparr>"
  proof
    assume new: "tracker costKey = None \<or> (\<exists>old. tracker costKey = Some old \<and> resetTime old < t)"
    then have "fixedWindow DAILY_WINDOW DAILY_AI_LIMIT t (tracker costKey)
                 = (Allow, Some \<lparr> count = 1, resetTime = t + DAILY_WINDOW \<rparr>)"
      using fixedWindow_cases [of "tracker costKey" t DAILY_WINDOW DAILY_AI_LIMIT] by blast
    then show "fst (fst (trackCost t tracker)) = Next
        \<and> snd (trackCost t tracker)
            = tracker(costKey := snd (fixedWindow DAILY_WINDOW DAILY_AI_LIMIT t (tracker costKey)))
        \<and> snd (trackCost t tracker) costKey
            = Some \<lparr> count = 1, resetTime = t + DAILY_WINDOW \<rparr>"
      using trackCost_new_window [of tracker t] new by simp
  qed
  note general = rateLimiter_fixedWindow [of cap client t store]
  note ai = aiRateLimiter_fixedWindow [of client t store]
  note machine = fixedWindow_cases [of state t window cap e]
  show ?thesis
    by (rule conjI [OF general [THEN conjunct1] conjI [OF general [THEN conjunct2]
          conjI [OF ai [THEN conjunct1] conjI [OF ai [THEN conjunct2] conjI [OF cost machine]]]]])
qed

text \<open>
  Witness for C2: a first request of a client and a first AI request of the day, and the three
  rules of the machine at the time 5000 with the cap 10: a window that ended at 4999, a
  window that ends at 5000 with the count 3, and a full window that ends at 6500.
\<close>

theorem fixed_window_transitions_witness:
  "fst (rateLimiter 10 ''10.0.0.1'' 5000 Map.empty) = Next
   \<and> snd (rateLimiter 10 ''10.0.0.1'' 5000 Map.empty) ''10.0.0.1:general''
       = Some \<lparr> count = 1, resetTime = 65000 \<rparr>
   \<and> fst (fst (trackCost 5000 Map.empty)) = Next
   \<and> snd (trackCost 5000 Map.empty) costKey = Some \<lparr> count = 1, resetTime = 86405000 \<rparr>
   \<and> fixedWindow 60000 10 5000 (Some \<lparr> count = 3, resetTime = 4999 \<rparr>)
       = (Allow, Some \<lparr> count = 1, resetTime = 65000 \<rparr>)
   \<and> fixedWindow 60000 10 5000 (Some \<lparr> count = 3, resetTime = 5000 \<rparr>)
       = (Allow, Some \<lparr> count = 4, resetTime = 5000 \<rparr>)
   \<and> fixedWindow 60000 10 5000 (Some \<lparr> count = 10, resetTime = 6500 \<rparr>)
       = (Deny 2, Some \<lparr> count = 10, resetTime = 6500 \<rparr>)"
proof -
  let ?old = "\<lparr> count = 3, resetTime = 4999 \<rparr>"
  let ?running = "\<lparr> count = 3, resetTime = 5000 \<rparr>"
  let ?full = "\<lparr> count = 10, resetTime = 6500 \<rparr>"
  note expired = fixed_window_transitions
    [where cap = 10 and client = "''10.0.0.1''" and t = 5000 and store = Map.empty
       and tracker = Map.empty and state = "Some ?old" and window = 60000 and e = ?old]
  note counting = fixed_window_transitions
    [where cap = 10 and client = "''10.0.0.1''" and t = 5000 and store = Map.empty
       and tracker = Map.empty and state = "Some ?running" and window = 60000 and e = ?running]
  note denied = fixed_window_transitions
    [where cap = 10 and client = "''10.0.0.1''" and t = 5000 and store = Map.empty
       and tracker = Map.empty and state = "Some ?full" and window = 60000 and e = ?full]
  have general: "fixedWindow RATE_LIMIT_WINDOW 10 5000 None
                   = (Allow, Some \<lparr> count = 1, resetTime = 65000 \<rparr>)"
    by (simp add: fixedWindow_def RATE_LIMIT_WINDOW_def)
  have "fst (rateLimiter 10 ''10.0.0.1'' 5000 Map.empty) = Next"
    using expired by (simp add: general decision_Allow_iff)
  moreover have "snd (rateLimiter 10 ''10.0.0.1'' 5000 Map.empty) ''10.0.0.1:general''
       = Some \<lparr> count = 1, resetTime = 65000 \<rparr>"
    using expired by (simp add: general)
  moreover have "fst (fst (trackCost 5000 Map.empty)) = Next
      \<and> snd (trackCost 5000 Map.empty) costKey = Some \<lparr> count = 1, resetTime = 86405000 \<rparr>"
    using expired by (simp add: DAILY_WINDOW_def fixedWindow_def)
  moreover have "fixedWindow 60000 10 5000 (Some ?old)
       = (Allow, Some \<lparr> count = 1, resetTime = 65000 \<rparr>)"
    using expired by simp
  moreover have "fixedWindow 60000 10 5000 (Some ?running)
       = (Allow, Some \<lparr> count = 4, resetTime = 5000 \<rparr>)"
    using counting by simp
  moreover have "fixedWindow 60000 10 5000 (Some ?full) = (Deny 2, Some ?full)"
  proof -
    have "\<lceil>real_of_int (6500 - 5000) / 1000\<rceil> = (2::int)"
      by (simp add: ceiling_eq_iff)
    then show ?thesis
      using denied by simp
  qed
  ultimately show ?thesis
    by simp
qed

section \<open>The daily cost counter\<close>

lemma trackCost_running:
  assumes "tracker costKey = Some e" and "t \<le> resetTime e"
  shows "trackCost t tracker
           = (costAnswer (count e + 1), tracker(costKey \<mapsto> e\<lparr> count := count e + 1 \<rparr>))"
  using assms by (simp add: trackCost_def Let_def costAnswer_def DAILY_AI_LIMIT_def)

lemma trackCostAll_running:
  assumes "tracker costKey = Some e" and "\<forall>t \<in> set ts. t \<le> resetTime e"
  shows "fst (trackCostAll ts tracker) = map (\<lambda>i. costAnswer (count e + 1 + i)) [0..<length ts]"
  using assms
proof (induction ts arbitrary: tracker e)
  case Nil
  show ?case by simp
next
  case (Cons t ts)
  let ?e = "e\<lparr> count := count e + 1 \<rparr>"
  let ?tracker = "tracker(costKey \<mapsto> ?e)"
  have one: "trackCost t tracker = (costAnswer (count e + 1), ?tracker)"
    using Cons.prems by (intro trackCost_running) simp_all
  have "fst (trackCostAll ts ?tracker)
          = map (\<lambda>i. costAnswer (count ?e + 1 + i)) [0..<length ts]"
  proof (rule Cons.IH)
    show "?tracker costKey = Some ?e"
      by simp
    show "\<forall>t \<in> set ts. t \<le> resetTime ?e"
      using Cons.prems by simp
  qed
  then have rest: "fst (trackCostAll ts ?tracker)
                = map (\<lambda>i. costAnswer (count e + 1 + Suc i)) [0..<length ts]"
    by simp
  have "fst (trackCostAll (t # ts) tracker)
          = costAnswer (count e + 1) # fst (trackCostAll ts ?tracker)"
    by (simp add: one split_def Let_def)
  also have "\<dots> = costAnswer (count e + 1)
                    # map (\<lambda>i. costAnswer (count e + 1 + Suc i)) [0..<length ts]"
    by (simp only: rest)
  also have "\<dots> = map (\<lambda>i. costAnswer (count e + 1 + i)) [0..<length (t # ts)]"
    by (simp add: upt_conv_Cons map_Suc_upt [symmetric] del: upt_Suc)
  finally show ?case .
qed

lemma burst_Suc: "burst t (Suc n) = t # map (\<lambda>i. t + 1 + int i) [0..<n]"
  by (simp add: burst_def upt_conv_Cons map_Suc_upt [symmetric] del: upt_Suc)

lemma trackCostAll_burst:
  assumes "int n \<le> DAILY_WINDOW"
  shows "fst (trackCostAll (burst t (Suc n)) Map.empty)
           = (Next, [Usage 1]) # map (\<lambda>i. costAnswer (2 + i)) [0..<n]"
proof -
  let ?e = "\<lparr> count = 1, resetTime = t + DAILY_WINDOW \<rparr>"
  let ?tracker = "[costKey \<mapsto> ?e]"
  have first: "trackCost t Map.empty = ((Next, [Usage 1]), ?tracker)"
    by (simp add: trackCost_new_window)
  have "fst (trackCostAll (map (\<lambda>i. t + 1 + int i) [0..<n]) ?tracker)
          = map (\<lambda>i. costAnswer (count ?e + 1 + i)) [0..<length (map (\<lambda>i. t + 1 + int i) [0..<n])]"
    using assms by (intro trackCostAll_running) auto
  then show ?thesis
    by (simp add: burst_Suc first split_def Let_def)
qed

text \<open>
  Claim C3, on the code. 101 AI requests arrive within 101 milliseconds, the counter being
  empty before. The 79th passes without a warning, the 80th passes and \<^verbatim>\<open>trackCost\<close> prints
  the warning, the 99th passes, and the 100th is answered with status 429, as the 101st is:
  \<^verbatim>\<open>trackCost\<close> increments the count before it compares it with the limit of 100.
\<close>

theorem trackCost_hundredth_request:
  "fst (trackCostAll (burst t 101) Map.empty) ! 78 = (Next, [Usage 79])
   \<and> fst (trackCostAll (burst t 101) Map.empty) ! 79 = (Next, [CostWarning 80, Usage 80])
   \<and> fst (trackCostAll (burst t 101) Map.empty) ! 98 = (Next, [CostWarning 99, Usage 99])
   \<and> fst (trackCostAll (burst t 101) Map.empty) ! 99
       = (Status429 ''Daily AI limit reached'' None, [CostAlert 100])
   \<and> fst (trackCostAll (burst t 101) Map.empty) ! 100
       = (Status429 ''Daily AI limit reached'' None, [CostAlert 101])"
proof -
  have "fst (trackCostAll (burst t (Suc 100)) Map.empty)
          = (Next, [Usage 1]) # map (\<lambda>i. costAnswer (2 + i)) [0..<100]"
    by (rule trackCostAll_burst) (simp add: DAILY_WINDOW_def)
  then show ?thesis
    by (simp add: costAnswer_def)
qed

section \<open>Analytics: bounds and rollover\<close>

lemma run_snoc: "run nearest d (evs @ [e]) = step nearest e (run nearest d evs)"
  by (simp add: run_def)

lemma length_pushBounded: "length xs \<le> cap \<Longrightarrow> length (pushBounded cap x xs) \<le> cap"
  by (simp add: pushBounded_def Let_def)

lemma pushBounded_eq:
  "0 < cap \<Longrightarrow> length xs \<le> cap \<Longrightarrow>
   pushBounded cap x xs = (if length xs < cap then xs @ [x] else tl xs @ [x])"
  by (cases xs) (auto simp: pushBounded_def Let_def)

lemma last_pushBounded: "0 < cap \<Longrightarrow> last (pushBounded cap x xs) = x"
  by (cases xs) (auto simp: pushBounded_def Let_def)

lemma bounded_initial: "bounded (initialAnalytics d)"
  by (simp add: bounded_def initialAnalytics_def)

lemma bounded_check: "bounded s \<Longrightarrow> bounded (checkAndResetDaily today s)"
  by (simp add: bounded_def checkAndResetDaily_def length_pushBounded)

lemma bounded_logRequest: "bounded s \<Longrightarrow> bounded (snd (logRequest today now req ai s))"
proof -
  assume "bounded s"
  then have "bounded (checkAndResetDaily today s)"
    by (rule bounded_check)
  then show ?thesis
    by (auto simp: bounded_def logRequest_def Let_def length_pushBounded less_Suc_eq)
qed

lemma bounded_logResponse: "bounded s \<Longrightarrow> bounded (logResponse nearest ref code ms s)"
  by (auto simp: bounded_def logResponse_def Let_def split: option.splits)

lemma bounded_step: "bounded s \<Longrightarrow> bounded (step nearest e s)"
  by (cases e) (simp_all add: bounded_logRequest bounded_logResponse bounded_check)

lemma bounded_run: "bounded (run nearest d evs)"
  by (induction evs rule: rev_induct)
    (simp_all add: run_snoc bounded_step, simp add: run_def bounded_initial)

lemma dayOne_state:
  "allocated (run wholeNumbers ''2025-01-01'' dayOne) = 2"
  "date (currentDayStats (run wholeNumbers ''2025-01-01'' dayOne)) = ''2025-01-01''"
  "totalRequests (currentDayStats (run wholeNumbers ''2025-01-01'' dayOne)) = 2"
  "aiRequests (currentDayStats (run wholeNumbers ''2025-01-01'' dayOne)) = 1"
  "errors (currentDayStats (run wholeNumbers ''2025-01-01'' dayOne)) = 0"
  "historicalStats (run wholeNumbers ''2025-01-01'' dayOne) = []"
  "requestLogs (run wholeNumbers ''2025-01-01'' dayOne) = [0, 1]"
  "map_option status (objects (run wholeNumbers ''2025-01-01'' dayOne) 0) = Some None"
  by (simp_all add: run_def dayOne_def initialAnalytics_def freshStats_def logRequest_def
      logResponse_def checkAndResetDaily_def pushBounded_def MAX_LOGS_def Let_def)

text \<open>
  Claim C9. Take any state that the analytics module reaches from its initial state, and a
  request that arrives then. The request log holds at most 1000 entries before and after,
  and the history at most 30. The new log entry is appended, after the oldest entry is
  dropped if the log held 1000. If the date has changed, the accumulator of the old day is
  appended to the history as it is, after the oldest day is dropped if the history held 30;
  \<^verbatim>\<open>checkAndResetDaily\<close> starts an accumulator for the new date with every counter zero, and
  after \<^verbatim>\<open>logRequest\<close> that accumulator counts this one request. If the date has not changed
  the history stays as it is.
\<close>

theorem logRequest_rollover_and_bounds:
  "length (requestLogs (snd (logRequest today now req ai (run nearest startDate evs)))) \<le> 1000
   \<and> length (historicalStats (snd (logRequest today now req ai (run nearest startDate evs)))) \<le> 30
   \<and> length (requestLogs (run nearest startDate evs)) \<le> 1000
   \<and> requestLogs (snd (logRequest today now req ai (run nearest startDate evs)))
       = (if length (requestLogs (run nearest startDate evs)) < 1000
          then requestLogs (run nearest startDate evs)
               @ [fst (logRequest today now req ai (run nearest startDate evs))]
          else tl (requestLogs (run nearest startDate evs))
               @ [fst (logRequest today now req ai (run nearest startDate evs))])
   \<and> (date (currentDayStats (run nearest startDate evs)) \<noteq> today \<longrightarrow>
        historicalStats (snd (logRequest today now req ai (run nearest startDate evs)))
          = (if length (historicalStats (run nearest startDate evs)) < 30
             then historicalStats (run nearest startDate evs) @ [currentDayStats (run nearest startDate evs)]
             else tl (historicalStats (run nearest startDate evs))
                  @ [currentDayStats (run nearest startDate evs)])
        \<and> currentDayStats (checkAndResetDaily today (run nearest startDate evs))
            = \<lparr> date = today, totalRequests = 0, aiRequests = 0, uniqueIPs = {},
                endpoints = Map.empty, errors = 0, avgResponseTime = Num 0 \<rparr>
        \<and> currentDayStats (snd (logRequest today now req ai (run nearest startDate evs)))
            = \<lparr> date = today, totalRequests = 1, aiRequests = (if ai then 1 else 0),
                uniqueIPs = {clientIp req}, endpoints = [path req \<mapsto> 1], errors = 0,
                avgResponseTime = Num 0 \<rparr>)
   \<and> (date (currentDayStats (run nearest startDate evs)) = today \<longrightarrow>
        historicalStats (snd (logRequest today now req ai (run nearest startDate evs)))
          = historicalStats (run nearest startDate evs))"
proof -
  let ?s = "run nearest startDate evs"
  let ?r = "logRequest today now req ai ?s"
  have inv: "bounded ?s" "bounded (snd ?r)"
    by (simp_all add: bounded_run bounded_logRequest)
  then have caps: "length (requestLogs (snd ?r)) \<le> 1000" "length (historicalStats (snd ?r)) \<le> 30"
    by (simp_all add: bounded_def MAX_LOGS_def)
  have logs: "requestLogs (snd ?r)
       = (if length (requestLogs ?s) < 1000 then requestLogs ?s @ [fst ?r]
          else tl (requestLogs ?s) @ [fst ?r])"
    using inv(1) pushBounded_eq [of 1000 "requestLogs ?s" "allocated ?s"]
    by (simp add: bounded_def MAX_LOGS_def logRequest_def Let_def checkAndResetDaily_def)
  have rollover: "date (currentDayStats ?s) \<noteq> today \<longrightarrow>
        historicalStats (snd ?r)
          = (if length (historicalStats ?s) < 30
             then historicalStats ?s @ [currentDayStats ?s]
             else tl (historicalStats ?s) @ [currentDayStats ?s])
        \<and> currentDayStats (checkAndResetDaily today ?s)
            = \<lparr> date = today, totalRequests = 0, aiRequests = 0, uniqueIPs = {},
                endpoints = Map.empty, errors = 0, avgResponseTime = Num 0 \<rparr>
        \<and> currentDayStats (snd ?r)
            = \<lparr> date = today, totalRequests = 1, aiRequests = (if ai then 1 else 0),
                uniqueIPs = {clientIp req}, endpoints = [path req \<mapsto> 1], errors = 0,
                avgResponseTime = Num 0 \<rparr>"
    using inv(1) pushBounded_eq [of 30 "historicalStats ?s" "currentDayStats ?s"]
    by (simp add: bounded_def logRequest_def Let_def checkAndResetDaily_def freshStats_def)
  have same_day: "date (currentDayStats ?s) = today \<longrightarrow> historicalStats (snd ?r) = historicalStats ?s"
    by (simp add: logRequest_def Let_def checkAndResetDaily_def)
  have before: "length (requestLogs ?s) \<le> 1000"
    using inv(1) by (simp add: bounded_def MAX_LOGS_def)
  show ?thesis
    by (rule conjI [OF caps(1) conjI [OF caps(2) conjI [OF before conjI [OF logs
          conjI [OF rollover same_day]]]]])
qed

text \<open>
  Witness for C9: after three events on 2025-01-01 a request arrives on 2025-01-02. The
  history then holds the old day with its two requests and the new day counts one.
\<close>

theorem logRequest_rollover_and_bounds_witness:
  "date (currentDayStats (run wholeNumbers ''2025-01-01'' dayOne)) \<noteq> ''2025-01-02''
   \<and> map totalRequests
        (historicalStats
           (snd (logRequest ''2025-01-02'' ''2025-01-02T00:00:01.000Z'' healthRequest True
                   (run wholeNumbers ''2025-01-01'' dayOne)))) = [2]
   \<and> totalRequests (currentDayStats (checkAndResetDaily ''2025-01-02'' (run wholeNumbers ''2025-01-01'' dayOne)))
       = 0
   \<and> totalRequests
        (currentDayStats
           (snd (logRequest ''2025-01-02'' ''2025-01-02T00:00:01.000Z'' healthRequest True
                   (run wholeNumbers ''2025-01-01'' dayOne)))) = 1
   \<and> requestLogs
        (snd (logRequest ''2025-01-02'' ''2025-01-02T00:00:01.000Z'' healthRequest True
                (run wholeNumbers ''2025-01-01'' dayOne))) = [0, 1, 2]"
proof -
  note inst = logRequest_rollover_and_bounds
    [where today = "''2025-01-02''" and now = "''2025-01-02T00:00:01.000Z''"
       and req = healthRequest and ai = True and nearest = wholeNumbers
       and startDate = "''2025-01-01''" and evs = dayOne]
  have ref: "fst (logRequest ''2025-01-02'' ''2025-01-02T00:00:01.000Z'' healthRequest True
                (run wholeNumbers ''2025-01-01'' dayOne)) = 2"
    by (simp add: logRequest_def Let_def checkAndResetDaily_def dayOne_state)
  show ?thesis
    using inst by (simp add: dayOne_state ref)
qed

section \<open>Analytics: responses and the running average\<close>

lemma track_snoc: "fold track (evs @ [e]) p = track e (fold track evs p)"
  by simp







end
